theory Spec2Isabelle
  imports Main "HOL-Library.Sublist" "HOL-Library.AList"
begin

section \<open>Contact manager (HW7.1.py): data model\<close>

text \<open>
  Python strings are modelled as HOL strings whose characters are the code points
  U+0000 to U+00FF, one \<^typ>\<open>char\<close> per code point, so that \<open>length\<close> is Python's
  \<open>len\<close>. The text that \<open>Birthday\<close> parses is taken in full, as the list of its
  Unicode code points. Exceptions are values: a function that may raise returns \<open>exn + 'a\<close>, with
  \<open>Inl\<close> for the exception.
\<close>

datatype exn =
    ValueError string
  | IndexError string
  | KeyError
  | AttributeError
  | OverflowError

subsection \<open>Library: \<open>str.isdigit\<close>, \<open>str.join\<close>\<close>

text \<open>
  \<open>str.isdigit\<close> holds of a non-empty string all of whose characters have the Unicode
  property Numeric_Type=Digit or Decimal. Below U+0100 these are the ten ASCII digits
  and the superscript digits U+00B2, U+00B3 and U+00B9.
\<close>

definition char_isdecimal :: "char \<Rightarrow> bool" where
  "char_isdecimal c = (c \<in> set ''0123456789'')"

definition char_isdigit :: "char \<Rightarrow> bool" where
  "char_isdigit c = (char_isdecimal c \<or> c \<in> set [CHR 0xB2, CHR 0xB3, CHR 0xB9])"

definition isdigit :: "string \<Rightarrow> bool" where
  "isdigit s = (s \<noteq> [] \<and> list_all char_isdigit s)"

fun join :: "string \<Rightarrow> string list \<Rightarrow> string" where
  "join sep [] = []"
| "join sep [x] = x"
| "join sep (x # y # ys) = x @ sep @ join sep (y # ys)"

subsection \<open>Validated fields\<close>

text \<open>
  \<open>Field\<close>, \<open>Name\<close> and \<open>Phone\<close> wrap one string attribute \<open>value\<close>; a wrapped
  value is modelled by the string itself. \<open>Phone.__init__\<close> raises \<open>ValueError\<close>
  when \<open>not value.isdigit() or len(value) != 10\<close>.
\<close>

definition Phone :: "string \<Rightarrow> exn + string" where
  "Phone v =
     (if \<not> isdigit v \<or> length v \<noteq> 10
      then Inl (ValueError ''Phone number must be 10 digits.'')
      else Inr v)"

subsection \<open>Library: \<open>datetime\<close>\<close>

text \<open>
  A naive \<open>datetime\<close> object, with the attributes of the library class. The date
  arithmetic follows CPython's \<open>_pydatetime\<close>: ordinals count days from 01.01.0001,
  which is day 1, and the largest ordinal is that of 31.12.9999.
\<close>

record datetime =
  year :: int
  month :: int
  day :: int
  hour :: int
  minute :: int
  second :: int
  microsecond :: int

definition MAXORDINAL :: int where
  "MAXORDINAL = 3652059"

definition DAYS_IN_MONTH :: "int list" where
  "DAYS_IN_MONTH = [-1, 31, 28, 31, 30, 31, 30, 31, 31, 30, 31, 30, 31]"

definition DAYS_BEFORE_MONTH :: "int list" where
  "DAYS_BEFORE_MONTH = [-1, 0, 31, 59, 90, 120, 151, 181, 212, 243, 273, 304, 334]"

definition is_leap :: "int \<Rightarrow> bool" where
  "is_leap y = (y mod 4 = 0 \<and> (y mod 100 \<noteq> 0 \<or> y mod 400 = 0))"

definition days_before_year :: "int \<Rightarrow> int" where
  "days_before_year y = (let z = y - 1 in z * 365 + z div 4 - z div 100 + z div 400)"

definition days_in_month :: "int \<Rightarrow> int \<Rightarrow> int" where
  "days_in_month y m = (if m = 2 \<and> is_leap y then 29 else DAYS_IN_MONTH ! nat m)"

definition days_before_month :: "int \<Rightarrow> int \<Rightarrow> int" where
  "days_before_month y m =
     DAYS_BEFORE_MONTH ! nat m + (if m > 2 \<and> is_leap y then 1 else 0)"

definition ymd2ord :: "int \<Rightarrow> int \<Rightarrow> int \<Rightarrow> int" where
  "ymd2ord y m d = days_before_year y + days_before_month y m + d"

definition ord2ymd :: "int \<Rightarrow> int \<times> int \<times> int" where
  "ord2ymd n0 =
     (let n = n0 - 1;
          n400 = n div 146097; n = n mod 146097;
          n100 = n div 36524; n = n mod 36524;
          n4 = n div 1461; n = n mod 1461;
          n1 = n div 365; n = n mod 365;
          y = n400 * 400 + 1 + n100 * 100 + n4 * 4 + n1
      in if n1 = 4 \<or> n100 = 4 then (y - 1, 12, 31)
         else
           let leapyear = (n1 = 3 \<and> (n4 \<noteq> 24 \<or> n100 = 3));
               m = (n + 50) div 32;
               preceding = DAYS_BEFORE_MONTH ! nat m + (if m > 2 \<and> leapyear then 1 else 0)
           in if preceding > n
              then (y, m - 1,
                    n - (preceding - (DAYS_IN_MONTH ! nat (m - 1)
                                       + (if m - 1 = 2 \<and> leapyear then 1 else 0))) + 1)
              else (y, m, n - preceding + 1))"

text \<open>
  The range checks of the \<open>date\<close> and \<open>datetime\<close> constructors. The library's
  messages carry the offending number; only the last one, which carries none, can
  reach a user of this program.
\<close>

definition check_date_fields :: "int \<Rightarrow> int \<Rightarrow> int \<Rightarrow> exn option" where
  "check_date_fields y m d =
     (if \<not> (1 \<le> y \<and> y \<le> 9999) then Some (ValueError ''year is out of range'')
      else if \<not> (1 \<le> m \<and> m \<le> 12) then Some (ValueError ''month must be in 1..12'')
      else if \<not> (1 \<le> d \<and> d \<le> days_in_month y m)
      then Some (ValueError ''day is out of range for month'')
      else None)"

definition toordinal :: "datetime \<Rightarrow> int" where
  "toordinal dt = ymd2ord (year dt) (month dt) (day dt)"

text \<open>\<open>dt.replace(year=y)\<close> builds a new object, so the fields are checked again.\<close>

definition replace_year :: "datetime \<Rightarrow> int \<Rightarrow> exn + datetime" where
  "replace_year dt y =
     (case check_date_fields y (month dt) (day dt) of
        Some e \<Rightarrow> Inl e
      | None \<Rightarrow> Inr (dt\<lparr>year := y\<rparr>))"

text \<open>\<open>dt + timedelta(days=k)\<close>: the time of day stays, the date moves by \<open>k\<close> days.\<close>

definition add_days :: "datetime \<Rightarrow> int \<Rightarrow> exn + datetime" where
  "add_days dt k =
     (let n = toordinal dt + k
      in if 0 < n \<and> n \<le> MAXORDINAL
         then (case ord2ymd n of (y, m, d) \<Rightarrow> Inr (dt\<lparr>year := y, month := m, day := d\<rparr>))
         else Inl OverflowError)"

text \<open>Two naive datetimes compare as the tuples of their seven fields.\<close>

fun lex_le :: "int list \<Rightarrow> int list \<Rightarrow> bool" where
  "lex_le [] ys = True"
| "lex_le (x # xs) [] = False"
| "lex_le (x # xs) (y # ys) = (x < y \<or> (x = y \<and> lex_le xs ys))"

definition dt_fields :: "datetime \<Rightarrow> int list" where
  "dt_fields dt = [year dt, month dt, day dt, hour dt, minute dt, second dt, microsecond dt]"

definition dt_le :: "datetime \<Rightarrow> datetime \<Rightarrow> bool" where
  "dt_le a b = lex_le (dt_fields a) (dt_fields b)"

subsection \<open>Library: \<open>strftime\<close> with the format \<open>%d.%m.%Y\<close>\<close>

definition digit_char :: "int \<Rightarrow> char" where
  "digit_char n = ''0123456789'' ! nat (n mod 10)"

definition pad2 :: "int \<Rightarrow> string" where
  "pad2 n = [digit_char (n div 10), digit_char n]"

definition pad4 :: "int \<Rightarrow> string" where
  "pad4 n = [digit_char (n div 1000), digit_char (n div 100), digit_char (n div 10), digit_char n]"

text \<open>
  \<open>%d\<close> and \<open>%m\<close> print two digits. \<open>%Y\<close> is handed to the C library: it prints the
  year in four digits where the platform pads with zeros (\<open>zpad\<close>), and without
  leading zeros where it does not (glibc). The two differ for the years below 1000.
\<close>

definition fmt_Y :: "bool \<Rightarrow> int \<Rightarrow> string" where
  "fmt_Y zpad y = (if zpad then pad4 y else dropWhile (\<lambda>c. c = CHR ''0'') (pad4 y))"

definition strftime :: "bool \<Rightarrow> datetime \<Rightarrow> string" where
  "strftime zpad dt = pad2 (day dt) @ ''.'' @ pad2 (month dt) @ ''.'' @ fmt_Y zpad (year dt)"

subsection \<open>Library: the decimal digits of Unicode\<close>

text \<open>
  In the regular expression of \<open>strptime\<close> the class \<^verbatim>\<open>\d\<close> holds of the decimal digits
  of every script (the characters of category Nd, those of \<open>str.isdecimal\<close>), and
  \<open>int\<close> converts them. A text is therefore parsed as the list of its code points,
  natural numbers; \<open>codes\<close> gives the code points of a string of the model.

  The decimal digits of the Unicode database (version 14.0.0, that of Python 3.11)
  come in runs of ten, from the zero to the nine of a script. \<open>Nd_zeros\<close> lists the
  zeros; \<open>isdecimal\<close> is \<open>str.isdecimal\<close> of one character and \<open>decimal\<close> is its
  value, \<open>unicodedata.decimal\<close>.
\<close>

definition codes :: "string \<Rightarrow> nat list" where
  "codes s = map of_char s"

definition Nd_zeros :: "nat list" where
  "Nd_zeros =
     [0x30, 0x660, 0x6F0, 0x7C0, 0x966, 0x9E6, 0xA66, 0xAE6,
      0xB66, 0xBE6, 0xC66, 0xCE6, 0xD66, 0xDE6, 0xE50, 0xED0,
      0xF20, 0x1040, 0x1090, 0x17E0, 0x1810, 0x1946, 0x19D0, 0x1A80,
      0x1A90, 0x1B50, 0x1BB0, 0x1C40, 0x1C50, 0xA620, 0xA8D0, 0xA900,
      0xA9D0, 0xA9F0, 0xAA50, 0xABF0, 0xFF10, 0x104A0, 0x10D30, 0x11066,
      0x110F0, 0x11136, 0x111D0, 0x112F0, 0x11450, 0x114D0, 0x11650, 0x116C0,
      0x11730, 0x118E0, 0x11950, 0x11C50, 0x11D50, 0x11DA0, 0x16A60, 0x16AC0,
      0x16B50, 0x1D7CE, 0x1D7D8, 0x1D7E2, 0x1D7EC, 0x1D7F6, 0x1E140, 0x1E2F0,
      0x1E950, 0x1FBF0]"

definition decimal_zero :: "nat \<Rightarrow> nat option" where
  "decimal_zero c = List.find (\<lambda>z. z \<le> c \<and> c < z + 10) Nd_zeros"

definition isdecimal :: "nat \<Rightarrow> bool" where
  "isdecimal c = (decimal_zero c \<noteq> None)"

definition decimal :: "nat \<Rightarrow> int" where
  "decimal c = (case decimal_zero c of None \<Rightarrow> 0 | Some z \<Rightarrow> int (c - z))"

subsection \<open>Library: \<open>strptime\<close> with the format \<open>%d.%m.%Y\<close>\<close>

text \<open>
  \<open>strptime\<close> compiles the format to the regular expression
  \<^verbatim>\<open>(?P<d>3[0-1]|[1-2]\d|0[1-9]|[1-9]| [1-9])\.(?P<m>1[0-2]|0[1-9]|[1-9])\.(?P<Y>\d\d\d\d)\<close>
  and matches it at the start of the data; text left after the match is an error.
  Every alternative of the expression is a sequence of character classes: one
  character, a range of characters, or \<^verbatim>\<open>\d\<close>. An item of the expression is the list
  of its alternatives, and \<open>match_all\<close> lists the matches in the order in which a
  backtracking matcher tries them: the first one is the match.
\<close>

datatype cls = Lit char | Range char char | Decimal

fun in_cls :: "cls \<Rightarrow> nat \<Rightarrow> bool" where
  "in_cls (Lit a) x = (x = of_char a)"
| "in_cls (Range a b) x = (of_char a \<le> x \<and> x \<le> of_char b)"
| "in_cls Decimal x = isdecimal x"

fun match_alt :: "cls list \<Rightarrow> nat list \<Rightarrow> (nat list \<times> nat list) option" where
  "match_alt [] s = Some ([], s)"
| "match_alt (c # cs) [] = None"
| "match_alt (c # cs) (x # xs) =
     (if in_cls c x
      then (case match_alt cs xs of None \<Rightarrow> None | Some (m, r) \<Rightarrow> Some (x # m, r))
      else None)"

fun match_all :: "cls list list list \<Rightarrow> nat list \<Rightarrow> (nat list list \<times> nat list) list" where
  "match_all [] s = [([], s)]"
| "match_all (g # gs) s =
     concat (map (\<lambda>a. case match_alt a s of
                         None \<Rightarrow> []
                       | Some (m, r) \<Rightarrow> map (\<lambda>(ms, fin). (m # ms, fin)) (match_all gs r)) g)"

definition re_d :: "cls list list" where
  "re_d = [[Lit CHR ''3'', Range CHR ''0'' CHR ''1''], [Range CHR ''1'' CHR ''2'', Decimal],
           [Lit CHR ''0'', Range CHR ''1'' CHR ''9''], [Range CHR ''1'' CHR ''9''],
           [Lit CHR '' '', Range CHR ''1'' CHR ''9'']]"

definition re_m :: "cls list list" where
  "re_m = [[Lit CHR ''1'', Range CHR ''0'' CHR ''2''], [Lit CHR ''0'', Range CHR ''1'' CHR ''9''],
           [Range CHR ''1'' CHR ''9'']]"

definition re_Y :: "cls list list" where
  "re_Y = [[Decimal, Decimal, Decimal, Decimal]]"

definition re_dot :: "cls list list" where
  "re_dot = [[Lit CHR ''.'']]"

definition format_regex :: "cls list list list" where
  "format_regex = [re_d, re_dot, re_m, re_dot, re_Y]"

text \<open>\<open>int\<close> of a matched group: decimal digits, after an optional blank.\<close>

definition int_of_group :: "nat list \<Rightarrow> int" where
  "int_of_group s =
     foldl (\<lambda>a c. 10 * a + decimal c) 0 (dropWhile (\<lambda>c. c = of_char CHR '' '') s)"

definition strptime :: "nat list \<Rightarrow> exn + datetime" where
  "strptime data_string =
     (case match_all format_regex data_string of
        [] \<Rightarrow> Inl (ValueError ''time data does not match format'')
      | (groups, rest) # _ \<Rightarrow>
          if rest \<noteq> [] then Inl (ValueError ''unconverted data remains'')
          else (case groups of
                  [d, _, m, _, y] \<Rightarrow>
                    (case check_date_fields (int_of_group y) (int_of_group m) (int_of_group d) of
                       Some e \<Rightarrow> Inl e
                     | None \<Rightarrow>
                         Inr \<lparr>year = int_of_group y, month = int_of_group m,
                              day = int_of_group d, hour = 0, minute = 0, second = 0,
                              microsecond = 0\<rparr>)
                | _ \<Rightarrow> Inl (ValueError ''time data does not match format'')))"

text \<open>\<open>Birthday.__init__\<close> replaces every \<open>ValueError\<close> of \<open>strptime\<close> by its own.\<close>

definition Birthday :: "nat list \<Rightarrow> exn + datetime" where
  "Birthday v =
     (case strptime v of
        Inl (ValueError _) \<Rightarrow> Inl (ValueError ''Invalid date format. Use DD.MM.YYYY'')
      | Inl e \<Rightarrow> Inl e
      | Inr dt \<Rightarrow> Inr dt)"

subsection \<open>\<open>Record\<close> and \<open>AddressBook\<close>\<close>

record Record =
  name :: string
  phones :: "string list"
  birthday :: "datetime option"

definition Record_init :: "string \<Rightarrow> Record" where
  "Record_init nm = \<lparr>name = nm, phones = [], birthday = None\<rparr>"

definition add_phone :: "Record \<Rightarrow> string \<Rightarrow> exn + Record" where
  "add_phone r phone =
     (case Phone phone of
        Inl e \<Rightarrow> Inl e
      | Inr p \<Rightarrow> Inr (r\<lparr>phones := phones r @ [p]\<rparr>))"

definition remove_phone :: "Record \<Rightarrow> string \<Rightarrow> Record" where
  "remove_phone r phone = r\<lparr>phones := [p \<leftarrow> phones r. p \<noteq> phone]\<rparr>"

definition add_birthday_rec :: "Record \<Rightarrow> string \<Rightarrow> exn + Record" where
  "add_birthday_rec r v =
     (case Birthday (codes v) of
        Inl e \<Rightarrow> Inl e
      | Inr b \<Rightarrow> Inr (r\<lparr>birthday := Some b\<rparr>))"

text \<open>
  The dictionary \<open>records\<close> keeps its keys in insertion order: it is an association
  list, and \<^const>\<open>AList.update\<close> is the assignment \<open>records[k] = v\<close>, which replaces the
  value of a key in place and appends a new key. Only \<open>add_record\<close> assigns.

  A record object is shared between the dictionary and the handler that found it.
  A method that changes the record changes the value that the dictionary holds
  under the key, and gives the dictionary no new key: \<open>replace_value\<close> puts the new
  value in the place of the old one and leaves a list without the key as it is,
  and \<open>store\<close> does so in the book.
\<close>

record AddressBook =
  records :: "(string \<times> Record) list"

definition AddressBook_init :: AddressBook where
  "AddressBook_init = \<lparr>records = []\<rparr>"

definition add_record :: "AddressBook \<Rightarrow> Record \<Rightarrow> AddressBook" where
  "add_record book r = book\<lparr>records := AList.update (name r) r (records book)\<rparr>"

definition find :: "AddressBook \<Rightarrow> string \<Rightarrow> Record option" where
  "find book nm = map_of (records book) nm"

fun replace_value :: "'k \<Rightarrow> 'v \<Rightarrow> ('k \<times> 'v) list \<Rightarrow> ('k \<times> 'v) list" where
  "replace_value k v [] = []"
| "replace_value k v (p # ps) = (if fst p = k then (k, v) # ps else p # replace_value k v ps)"

definition store :: "AddressBook \<Rightarrow> string \<Rightarrow> Record \<Rightarrow> AddressBook" where
  "store book nm r = book\<lparr>records := replace_value nm r (records book)\<rparr>"

text \<open>
  The loop of \<open>get_upcoming_birthdays\<close> over \<open>records.values()\<close>. The reading of the
  clock, \<open>datetime.today()\<close>, is the argument \<open>today\<close>. The comparison
  \<open>today <= b <= today + timedelta(days=7)\<close> evaluates the sum only when its first
  half holds. An entry of the result is the pair of its \<open>"name"\<close> and \<open>"birthday"\<close>.
\<close>

fun upcoming_loop ::
  "bool \<Rightarrow> datetime \<Rightarrow> Record list \<Rightarrow> (string \<times> string) list \<Rightarrow> exn + (string \<times> string) list"
where
  "upcoming_loop zpad today [] upcoming = Inr upcoming"
| "upcoming_loop zpad today (r # rs) upcoming =
     (case birthday r of
        None \<Rightarrow> upcoming_loop zpad today rs upcoming
      | Some b \<Rightarrow>
          (case replace_year b (year today) of
             Inl e \<Rightarrow> Inl e
           | Inr birthday_this_year \<Rightarrow>
               if dt_le today birthday_this_year
               then (case add_days today 7 of
                       Inl e \<Rightarrow> Inl e
                     | Inr limit \<Rightarrow>
                         if dt_le birthday_this_year limit
                         then upcoming_loop zpad today rs
                                (upcoming @ [(name r, strftime zpad birthday_this_year)])
                         else upcoming_loop zpad today rs upcoming)
               else upcoming_loop zpad today rs upcoming))"

definition get_upcoming_birthdays ::
  "bool \<Rightarrow> datetime \<Rightarrow> AddressBook \<Rightarrow> exn + (string \<times> string) list" where
  "get_upcoming_birthdays zpad today book =
     upcoming_loop zpad today (map snd (records book)) []"

subsection \<open>Command handlers\<close>

text \<open>
  A handler returns its result, a string or the exception that leaves it, and the
  address book as the call left it: what a handler did before it raised stays done.
  \<open>input_error\<close> is the decorator: it turns \<open>ValueError\<close> into its message and
  \<open>IndexError\<close> and \<open>KeyError\<close> into fixed strings, and lets every other exception
  through.
\<close>

type_synonym handler = "string list \<Rightarrow> AddressBook \<Rightarrow> (exn + string) \<times> AddressBook"

definition input_error :: "handler \<Rightarrow> handler" where
  "input_error func args book =
     (case func args book of
        (Inl (ValueError e), book') \<Rightarrow> (Inr e, book')
      | (Inl (IndexError _), book') \<Rightarrow> (Inr ''Insufficient arguments provided.'', book')
      | (Inl KeyError, book') \<Rightarrow> (Inr ''Contact not found.'', book')
      | (res, book') \<Rightarrow> (res, book'))"

definition add_contact_func :: handler where
  "add_contact_func args book =
     (if length args < 2
      then (Inl (IndexError ''Not enough arguments. Usage: add [name] [phone]''), book)
      else
        let nm = args ! 0; phone = args ! 1;
            (record, book1, message) =
              (case find book nm of
                 None \<Rightarrow> (Record_init nm, add_record book (Record_init nm), ''Contact added.'')
               | Some r \<Rightarrow> (r, book, ''Contact updated.''))
        in (if phone \<noteq> []
            then (case add_phone record phone of
                    Inl e \<Rightarrow> (Inl e, book1)
                  | Inr record' \<Rightarrow> (Inr message, store book1 nm record'))
            else (Inr message, book1)))"

definition add_contact :: handler where
  "add_contact = input_error add_contact_func"

definition change_phone_func :: handler where
  "change_phone_func args book =
     (if length args < 3
      then (Inl (IndexError
              ''Not enough arguments. Usage: change [name] [old_phone] [new_phone]''), book)
      else
        let nm = args ! 0; old_phone = args ! 1; new_phone = args ! 2
        in (case find book nm of
              None \<Rightarrow> (Inl AttributeError, book)
            | Some r \<Rightarrow>
                (let r1 = remove_phone r old_phone
                 in (case add_phone r1 new_phone of
                       Inl e \<Rightarrow> (Inl e, store book nm r1)
                     | Inr r2 \<Rightarrow> (Inr ''Phone number updated.'', store book nm r2)))))"

definition change_phone :: handler where
  "change_phone = input_error change_phone_func"

definition show_phones_func :: handler where
  "show_phones_func args book =
     (if length args < 1
      then (Inl (IndexError ''Not enough arguments. Usage: phone [name]''), book)
      else
        (case find book (args ! 0) of
           None \<Rightarrow> (Inl AttributeError, book)
         | Some r \<Rightarrow> (Inr (join '', '' (phones r)), book)))"

definition show_phones :: handler where
  "show_phones = input_error show_phones_func"

definition show_all_func :: handler where
  "show_all_func args book =
     (Inr (join [CHR 0x0A]
             (map (\<lambda>(nm, r). nm @ '': '' @ join '', '' (phones r)) (records book))), book)"

definition show_all :: handler where
  "show_all = input_error show_all_func"

definition add_birthday_func :: handler where
  "add_birthday_func args book =
     (if length args < 2
      then (Inl (IndexError
              ''Not enough arguments. Usage: add-birthday [name] [birthday]''), book)
      else
        let nm = args ! 0; bday = args ! 1
        in (case find book nm of
              None \<Rightarrow> (Inl AttributeError, book)
            | Some r \<Rightarrow>
                (case add_birthday_rec r bday of
                   Inl e \<Rightarrow> (Inl e, book)
                 | Inr r' \<Rightarrow> (Inr ''Birthday added.'', store book nm r'))))"

definition add_birthday :: handler where
  "add_birthday = input_error add_birthday_func"

definition show_birthday_func :: "bool \<Rightarrow> handler" where
  "show_birthday_func zpad args book =
     (if length args < 1
      then (Inl (IndexError ''Not enough arguments. Usage: show-birthday [name]''), book)
      else
        (case find book (args ! 0) of
           None \<Rightarrow> (Inl AttributeError, book)
         | Some r \<Rightarrow>
             (case birthday r of
                Some b \<Rightarrow> (Inr (strftime zpad b), book)
              | None \<Rightarrow> (Inr ''No birthday set.'', book))))"

definition show_birthday :: "bool \<Rightarrow> handler" where
  "show_birthday zpad = input_error (show_birthday_func zpad)"

definition birthdays_func :: "bool \<Rightarrow> datetime \<Rightarrow> handler" where
  "birthdays_func zpad today args book =
     (case get_upcoming_birthdays zpad today book of
        Inl e \<Rightarrow> (Inl e, book)
      | Inr upcoming \<Rightarrow>
          if upcoming \<noteq> []
          then (Inr (join [CHR 0x0A] (map (\<lambda>(nm, b). nm @ '' - '' @ b) upcoming)), book)
          else (Inr ''No upcoming birthdays.'', book))"

definition birthdays :: "bool \<Rightarrow> datetime \<Rightarrow> handler" where
  "birthdays zpad today = input_error (birthdays_func zpad today)"

section \<open>Notions of the specification\<close>

text \<open>
  The specification's phone number: a string of exactly 10 decimal digits.
\<close>

definition ten_decimal_digits :: "string \<Rightarrow> bool" where
  "ten_decimal_digits s = (length s = 10 \<and> list_all char_isdecimal s)"

text \<open>Ten times the superscript two, U+00B2.\<close>

definition sup10 :: string where
  "sup10 = [CHR 0xB2, CHR 0xB2, CHR 0xB2, CHR 0xB2, CHR 0xB2,
            CHR 0xB2, CHR 0xB2, CHR 0xB2, CHR 0xB2, CHR 0xB2]"

section \<open>Command sequences\<close>

text \<open>
  The commands that \<open>main\<close> forwards to a handler, with the arguments it passes.
  \<open>birthdays\<close> reads the clock; the reading is part of the command. \<open>run\<close> calls
  the handlers one after the other on the same address book.
\<close>

datatype command =
    Cmd_add "string list"
  | Cmd_change "string list"
  | Cmd_phone "string list"
  | Cmd_all "string list"
  | Cmd_add_birthday "string list"
  | Cmd_show_birthday "string list"
  | Cmd_birthdays datetime "string list"

fun dispatch :: "bool \<Rightarrow> command \<Rightarrow> AddressBook \<Rightarrow> (exn + string) \<times> AddressBook" where
  "dispatch zpad (Cmd_add args) book = add_contact args book"
| "dispatch zpad (Cmd_change args) book = change_phone args book"
| "dispatch zpad (Cmd_phone args) book = show_phones args book"
| "dispatch zpad (Cmd_all args) book = show_all args book"
| "dispatch zpad (Cmd_add_birthday args) book = add_birthday args book"
| "dispatch zpad (Cmd_show_birthday args) book = show_birthday zpad args book"
| "dispatch zpad (Cmd_birthdays today args) book = birthdays zpad today args book"

fun run :: "bool \<Rightarrow> command list \<Rightarrow> AddressBook \<Rightarrow> AddressBook" where
  "run zpad [] book = book"
| "run zpad (c # cs) book = run zpad cs (snd (dispatch zpad c book))"

text \<open>The phones that \<open>Phone\<close> accepts: ten characters, each a digit for \<open>str.isdigit\<close>.\<close>

definition phones_accepted :: "AddressBook \<Rightarrow> bool" where
  "phones_accepted book =
     (\<forall>(k, r) \<in> set (records book). \<forall>p \<in> set (phones r). length p = 10 \<and> list_all char_isdigit p)"

text \<open>An address book of one contact with one phone.\<close>

definition book_Alice :: AddressBook where
  "book_Alice = \<lparr>records = [(''Alice'', \<lparr>name = ''Alice'', phones = [''1111111111''], birthday = None\<rparr>)]\<rparr>"

section \<open>The texts that \<open>Birthday\<close> accepts\<close>

text \<open>
  The texts of an item of the regular expression: those that one of its
  alternatives matches, class by class.
\<close>

definition lang :: "cls list list \<Rightarrow> nat list set" where
  "lang g = {m. \<exists>a\<in>set g. list_all2 (\<lambda>x c. in_cls c x) m a}"

text \<open>
  The digits \<open>lo\<close> to \<open>hi\<close> of ASCII, and the number that a text of ASCII digits
  denotes.
\<close>

definition ascii :: "char \<Rightarrow> char \<Rightarrow> nat \<Rightarrow> bool" where
  "ascii lo hi c = (of_char lo \<le> c \<and> c \<le> of_char hi)"

definition number :: "nat list \<Rightarrow> int" where
  "number ds = foldl (\<lambda>n c. 10 * n + (int c - 48)) 0 ds"

text \<open>
  The day, the month and the year that a text denotes for \<open>Birthday\<close>. A day is a
  digit from 1 to 9, alone or after a zero or a blank; or 1 or 2 and a decimal digit
  of any script; or 30 or 31. A month is a digit from 1 to 9, alone or after a zero;
  or 10, 11 or 12. A year is four decimal digits of any script.
\<close>

definition day_of :: "nat list \<Rightarrow> int option" where
  "day_of ds =
     (case ds of
        [a] \<Rightarrow> if ascii CHR ''1'' CHR ''9'' a then Some (decimal a) else None
      | [a, b] \<Rightarrow>
          if ascii CHR ''1'' CHR ''2'' a \<and> isdecimal b then Some (10 * decimal a + decimal b)
          else if a = of_char CHR ''3'' \<and> ascii CHR ''0'' CHR ''1'' b then Some (30 + decimal b)
          else if (a = of_char CHR ''0'' \<or> a = of_char CHR '' '') \<and> ascii CHR ''1'' CHR ''9'' b
          then Some (decimal b)
          else None
      | _ \<Rightarrow> None)"

definition month_of :: "nat list \<Rightarrow> int option" where
  "month_of ms =
     (case ms of
        [a] \<Rightarrow> if ascii CHR ''1'' CHR ''9'' a then Some (decimal a) else None
      | [a, b] \<Rightarrow>
          if a = of_char CHR ''1'' \<and> ascii CHR ''0'' CHR ''2'' b then Some (10 + decimal b)
          else if a = of_char CHR ''0'' \<and> ascii CHR ''1'' CHR ''9'' b then Some (decimal b)
          else None
      | _ \<Rightarrow> None)"

definition year_of :: "nat list \<Rightarrow> int option" where
  "year_of ys =
     (case ys of
        [a, b, c, d] \<Rightarrow>
          if isdecimal a \<and> isdecimal b \<and> isdecimal c \<and> isdecimal d
          then Some (1000 * decimal a + 100 * decimal b + 10 * decimal c + decimal d)
          else None
      | _ \<Rightarrow> None)"

text \<open>
  The calendar: April, June, September and November have 30 days, February has 28,
  and 29 in a leap year, the other months have 31; a year is a leap year when 4
  divides it and 100 does not, or when 400 divides it. The first year is the year 1.
\<close>

definition leap_year :: "int \<Rightarrow> bool" where
  "leap_year y = (y mod 4 = 0 \<and> y mod 100 \<noteq> 0 \<or> y mod 400 = 0)"

definition month_length :: "int \<Rightarrow> int \<Rightarrow> int" where
  "month_length y m =
     (if m = 4 \<or> m = 6 \<or> m = 9 \<or> m = 11 then 30
      else if m = 2 then (if leap_year y then 29 else 28)
      else 31)"

definition calendar_date :: "int \<Rightarrow> int \<Rightarrow> int \<Rightarrow> bool" where
  "calendar_date y m d = (1 \<le> y \<and> 1 \<le> m \<and> m \<le> 12 \<and> 1 \<le> d \<and> d \<le> month_length y m)"

text \<open>The datetime that \<open>strptime\<close> returns for a date: its midnight.\<close>

definition midnight :: "int \<Rightarrow> int \<Rightarrow> int \<Rightarrow> datetime" where
  "midnight y m d = \<lparr>year = y, month = m, day = d, hour = 0, minute = 0, second = 0, microsecond = 0\<rparr>"

text \<open>
  \<open>date_text s dt\<close>: \<open>s\<close> is a day, a month and a year with a full stop between them,
  the three numbers are a date of the calendar, and \<open>dt\<close> is the midnight of that
  date.
\<close>

definition date_text :: "nat list \<Rightarrow> datetime \<Rightarrow> bool" where
  "date_text s dt \<longleftrightarrow>
     (\<exists>ds ms ys y m d. s = ds @ codes ''.'' @ ms @ codes ''.'' @ ys
        \<and> day_of ds = Some d \<and> month_of ms = Some m \<and> year_of ys = Some y
        \<and> calendar_date y m d \<and> dt = midnight y m d)"

text \<open>
  The specification's format \<open>DD.MM.YYYY\<close>: two digits, a full stop, two digits, a
  full stop, four digits, the digits being those of ASCII. A text of that format
  denotes a real calendar date when its three numbers are a date of the calendar.
\<close>

definition matches_DD_MM_YYYY :: "nat list \<Rightarrow> bool" where
  "matches_DD_MM_YYYY s =
     (length s = 10 \<and> s ! 2 = of_char CHR ''.'' \<and> s ! 5 = of_char CHR ''.''
      \<and> list_all (ascii CHR ''0'' CHR ''9'') (take 2 s @ take 2 (drop 3 s) @ drop 6 s))"


text \<open>An address book of one contact without phones and without a birthday.\<close>

definition book_Carl :: AddressBook where
  "book_Carl = \<lparr>records = [(''Carl'', \<lparr>name = ''Carl'', phones = [], birthday = None\<rparr>)]\<rparr>"

section \<open>The upcoming birthdays of the specification\<close>

text \<open>
  The occurrence of a birthday in the year of \<open>today\<close>, the inclusive range, and the
  entries that the specification lists: for every record with a birthday, in the
  order of the book, the name and the formatted occurrence when the occurrence is
  between \<open>today\<close> and \<open>limit\<close>, the day seven days after \<open>today\<close>.
\<close>

definition occurrence :: "datetime \<Rightarrow> datetime \<Rightarrow> datetime" where
  "occurrence today b = b\<lparr>year := year today\<rparr>"

definition in_range :: "datetime \<Rightarrow> datetime \<Rightarrow> datetime \<Rightarrow> bool" where
  "in_range lo hi x = (dt_le lo x \<and> dt_le x hi)"

definition upcoming_entry :: "bool \<Rightarrow> datetime \<Rightarrow> datetime \<Rightarrow> Record \<Rightarrow> (string \<times> string) list" where
  "upcoming_entry zpad today limit r =
     (case birthday r of
        None \<Rightarrow> []
      | Some b \<Rightarrow>
          if in_range today limit (occurrence today b)
          then [(name r, strftime zpad (occurrence today b))]
          else [])"

definition upcoming_spec :: "bool \<Rightarrow> datetime \<Rightarrow> datetime \<Rightarrow> AddressBook \<Rightarrow> (string \<times> string) list" where
  "upcoming_spec zpad today limit book =
     concat (map (upcoming_entry zpad today limit) (map snd (records book)))"

text \<open>
  A birthday has an occurrence in the year of \<open>today\<close> when its month and day are a
  date of that year: every birthday but 29 February in a year that is not a leap
  year.
\<close>

definition has_occurrence :: "datetime \<Rightarrow> Record \<Rightarrow> bool" where
  "has_occurrence today r =
     (case birthday r of
        None \<Rightarrow> True
      | Some b \<Rightarrow> check_date_fields (year today) (month b) (day b) = None)"

text \<open>
  Three address books: Carl, born 12.06.1990, and Dana, born 29.02.2024; Carl alone;
  and a Carl born 10.06.1990.
\<close>

definition book_Carl_Dana :: AddressBook where
  "book_Carl_Dana =
     \<lparr>records = [(''Carl'', \<lparr>name = ''Carl'', phones = [], birthday = Some (midnight 1990 6 12)\<rparr>),
                 (''Dana'', \<lparr>name = ''Dana'', phones = [], birthday = Some (midnight 2024 2 29)\<rparr>)]\<rparr>"

definition book_Carl_12_06 :: AddressBook where
  "book_Carl_12_06 =
     \<lparr>records = [(''Carl'', \<lparr>name = ''Carl'', phones = [], birthday = Some (midnight 1990 6 12)\<rparr>)]\<rparr>"

definition book_Carl_10_06 :: AddressBook where
  "book_Carl_10_06 =
     \<lparr>records = [(''Carl'', \<lparr>name = ''Carl'', phones = [], birthday = Some (midnight 1990 6 10)\<rparr>)]\<rparr>"

section \<open>The phones of a record\<close>

text \<open>A record all of whose phones \<open>Phone\<close> accepts.\<close>

definition accepted :: "Record \<Rightarrow> bool" where
  "accepted r = (\<forall>p \<in> set (phones r). length p = 10 \<and> list_all char_isdigit p)"

section \<open>Phone validation\<close>

lemma char_isdecimal_isdigit: "char_isdecimal c \<Longrightarrow> char_isdigit c"
  by (simp add: char_isdigit_def)

lemma Phone_accepts_iff:
  "Phone s = Inr p \<longleftrightarrow> p = s \<and> length s = 10 \<and> list_all char_isdigit s"
  by (auto simp: Phone_def isdigit_def)

lemma Phone_rejects_iff:
  "Phone s = Inl e \<longleftrightarrow>
     e = ValueError ''Phone number must be 10 digits.''
     \<and> \<not> (length s = 10 \<and> list_all char_isdigit s)"
  by (auto simp: Phone_def isdigit_def)

lemma Phone_ten_decimal_digits: "ten_decimal_digits s \<Longrightarrow> Phone s = Inr s"
  by (auto simp: Phone_accepts_iff ten_decimal_digits_def list_all_iff char_isdecimal_isdigit)

lemma sup10_not_decimal: "\<not> ten_decimal_digits sup10"
  by (simp add: sup10_def ten_decimal_digits_def char_isdecimal_def)

lemma Phone_sup10: "Phone sup10 = Inr sup10"
  by (simp add: Phone_def isdigit_def sup10_def char_isdigit_def char_isdecimal_def)

text \<open>
  C3. A phone is to be rejected exactly when its string is not ten decimal digits.
  \<open>Phone\<close> tests \<open>str.isdigit\<close>, which also holds of the superscript digits: the
  string of ten superscript twos is not ten decimal digits, and \<open>Phone\<close> accepts it
  and stores it unchanged.
\<close>

theorem Phone_superscript_digits:
  "Phone sup10 = Inr sup10 \<and> \<not> ten_decimal_digits sup10"
  by (simp add: Phone_def isdigit_def sup10_def ten_decimal_digits_def
      char_isdigit_def char_isdecimal_def)

theorem Phone_superscript_digits_witness:
  "Phone sup10 \<noteq> Inl (ValueError ''Phone number must be 10 digits.'')"
  using Phone_superscript_digits by simp

section \<open>Removing a phone\<close>

text \<open>
  C7. \<open>remove_phone r v\<close> leaves no phone equal to \<open>v\<close>, keeps every other phone as
  often as it occurred and in the original order, leaves name and birthday alone,
  and changes nothing when no phone equals \<open>v\<close>. It cannot raise.
\<close>

theorem remove_phone_removes_all:
  "v \<notin> set (phones (remove_phone r v))
   \<and> (\<forall>p. p \<noteq> v \<longrightarrow> count_list (phones (remove_phone r v)) p = count_list (phones r) p)
   \<and> subseq (phones (remove_phone r v)) (phones r)
   \<and> phones (remove_phone r v) = filter (\<lambda>p. p \<noteq> v) (phones r)
   \<and> name (remove_phone r v) = name r
   \<and> birthday (remove_phone r v) = birthday r
   \<and> (v \<notin> set (phones r) \<longrightarrow> remove_phone r v = r)"
proof -
  have cnt: "p \<noteq> v \<Longrightarrow> count_list (filter (\<lambda>q. q \<noteq> v) xs) p = count_list xs p"
    for p and xs :: "string list"
    by (induction xs) auto
  have noop: "v \<notin> set xs \<Longrightarrow> filter (\<lambda>q. q \<noteq> v) xs = xs" for xs :: "string list"
    by (induction xs) auto
  show ?thesis
    by (simp add: remove_phone_def cnt noop)
qed

theorem remove_phone_removes_all_witness:
  "phones (remove_phone \<lparr>name = ''A'', phones = [''1'', ''2'', ''1'', ''3''], birthday = None\<rparr> ''1'')
     = [''2'', ''3'']
   \<and> count_list (phones (remove_phone
         \<lparr>name = ''A'', phones = [''1'', ''2'', ''1'', ''3''], birthday = None\<rparr> ''1'')) ''2'' = 1
   \<and> remove_phone \<lparr>name = ''A'', phones = [''1'', ''2'', ''1'', ''3''], birthday = None\<rparr> ''4''
       = \<lparr>name = ''A'', phones = [''1'', ''2'', ''1'', ''3''], birthday = None\<rparr>"
  using remove_phone_removes_all
          [of "''1''" "\<lparr>name = ''A'', phones = [''1'', ''2'', ''1'', ''3''], birthday = None\<rparr>"]
        remove_phone_removes_all
          [of "''4''" "\<lparr>name = ''A'', phones = [''1'', ''2'', ''1'', ''3''], birthday = None\<rparr>"]
  by simp

section \<open>Dictionary and decorator\<close>

lemma update_absent: "map_of al k = None \<Longrightarrow> AList.update k v al = al @ [(k, v)]"
  by (induction al) (auto split: if_splits)

lemma replace_value_absent: "map_of al k = None \<Longrightarrow> replace_value k v al = al"
  by (induction al) (auto split: if_splits)

lemma replace_value_last:
  "map_of al k = None \<Longrightarrow> replace_value k v' (al @ [(k, v)]) = al @ [(k, v')]"
  by (induction al) (auto split: if_splits)

lemma map_of_replace_value:
  "map_of (replace_value k v al) k' =
     (if k' = k \<and> map_of al k \<noteq> None then Some v else map_of al k')"
  by (induction al) auto

lemma replace_value_keys: "map fst (replace_value k v al) = map fst al"
  by (induction al) auto

lemma set_replace_value: "set (replace_value k v al) \<subseteq> insert (k, v) (set al)"
  by (induction al) auto

text \<open>Only \<open>add_record\<close> gives the book a new name: \<open>store\<close> changes nothing for a name it has not.\<close>

lemma store_absent: "find book nm = None \<Longrightarrow> store book nm r = book"
  by (simp add: find_def store_def replace_value_absent)

lemma find_store:
  "find (store book nm r) nm' =
     (if nm' = nm \<and> find book nm \<noteq> None then Some r else find book nm')"
  by (simp add: find_def store_def map_of_replace_value)

lemma find_add_record: "find (add_record book r) nm' = (if nm' = name r then Some r else find book nm')"
  by (simp add: find_def add_record_def update_conv')

lemma store_keys: "map fst (records (store book nm r')) = map fst (records book)"
  by (simp add: store_def replace_value_keys)

lemma input_error_Inr: "func args book = (Inr s, book') \<Longrightarrow> input_error func args book = (Inr s, book')"
  by (simp add: input_error_def)

lemma input_error_ValueError: "func args book = (Inl (ValueError m), book') \<Longrightarrow> input_error func args book = (Inr m, book')"
  by (simp add: input_error_def)

lemma input_error_AttributeError: "func args book = (Inl AttributeError, book') \<Longrightarrow> input_error func args book = (Inl AttributeError, book')"
  by (simp add: input_error_def)

section \<open>Handlers called with a name that is not in the book\<close>

lemma change_phone_absent:
  "find book nm = None \<Longrightarrow> change_phone (nm # old # new # rest) book = (Inl AttributeError, book)"
  by (simp add: change_phone_def change_phone_func_def input_error_def)

lemma show_phones_absent:
  "find book nm = None \<Longrightarrow> show_phones (nm # rest) book = (Inl AttributeError, book)"
  by (simp add: show_phones_def show_phones_func_def input_error_def)

lemma add_birthday_absent:
  "find book nm = None \<Longrightarrow> add_birthday (nm # b # rest) book = (Inl AttributeError, book)"
  by (simp add: add_birthday_def add_birthday_func_def input_error_def)

lemma show_birthday_absent:
  "find book nm = None \<Longrightarrow> show_birthday zpad (nm # rest) book = (Inl AttributeError, book)"
  by (simp add: show_birthday_def show_birthday_func_def input_error_def)

text \<open>
  C1. The handlers \<open>change\<close>, \<open>phone\<close>, \<open>add-birthday\<close> and \<open>show-birthday\<close> are to
  answer \<open>Contact not found.\<close> for a name that \<open>find\<close> does not know. \<open>find\<close>
  returns \<open>None\<close> and raises nothing, the handler then reads an attribute of \<open>None\<close>,
  and the \<open>AttributeError\<close> passes the decorator, which catches \<open>KeyError\<close>: on the
  empty book each of the four handlers raises for the name Bob.
\<close>

theorem handlers_raise_for_unknown_name:
  "find AddressBook_init ''Bob'' = None
   \<and> change_phone [''Bob'', ''111'', ''222''] AddressBook_init = (Inl AttributeError, AddressBook_init)
   \<and> show_phones [''Bob''] AddressBook_init = (Inl AttributeError, AddressBook_init)
   \<and> add_birthday [''Bob'', ''15.06.1990''] AddressBook_init = (Inl AttributeError, AddressBook_init)
   \<and> show_birthday False [''Bob''] AddressBook_init = (Inl AttributeError, AddressBook_init)"
  by (simp add: change_phone_absent show_phones_absent add_birthday_absent show_birthday_absent
      find_def AddressBook_init_def)

theorem handlers_raise_for_unknown_name_witness:
  "fst (change_phone [''Bob'', ''111'', ''222''] AddressBook_init) \<noteq> Inr ''Contact not found.''"
  using handlers_raise_for_unknown_name by simp

section \<open>Adding contacts and listing phones\<close>

lemma add_contact_new:
  assumes "find book nm = None" "Phone p = Inr p"
  shows "add_contact (nm # p # rest) book =
           (Inr ''Contact added.'',
            book\<lparr>records := records book @ [(nm, \<lparr>name = nm, phones = [p], birthday = None\<rparr>)]\<rparr>)"
proof -
  from assms(2) have ne: "p \<noteq> []" by (auto simp: Phone_accepts_iff)
  from assms(1) have m: "map_of (records book) nm = None" by (simp add: find_def)
  show ?thesis using assms ne m
    by (simp add: add_contact_def add_contact_func_def input_error_def add_phone_def
        Record_init_def add_record_def store_def update_absent replace_value_last)
qed

lemma add_contact_existing:
  assumes "find book nm = Some r" "Phone p = Inr p"
  shows "add_contact (nm # p # rest) book =
           (Inr ''Contact updated.'', store book nm (r\<lparr>phones := phones r @ [p]\<rparr>))"
proof -
  from assms(2) have ne: "p \<noteq> []" by (auto simp: Phone_accepts_iff)
  show ?thesis using assms ne
    by (simp add: add_contact_def add_contact_func_def input_error_def add_phone_def)
qed

lemma add_contact_new_rejected:
  assumes "find book nm = None" "p \<noteq> []" "Phone p = Inl e"
  shows "add_contact (nm # p # rest) book =
           (Inr ''Phone number must be 10 digits.'',
            book\<lparr>records := records book @ [(nm, \<lparr>name = nm, phones = [], birthday = None\<rparr>)]\<rparr>)"
proof -
  from assms(1) have m: "map_of (records book) nm = None" by (simp add: find_def)
  from assms(3) have e: "e = ValueError ''Phone number must be 10 digits.''" by (simp add: Phone_rejects_iff)
  show ?thesis using assms m e
    by (simp add: add_contact_def add_contact_func_def input_error_def add_phone_def
        Record_init_def add_record_def update_absent)
qed

lemma add_contact_new_empty:
  assumes "find book nm = None"
  shows "add_contact (nm # [] # rest) book =
           (Inr ''Contact added.'',
            book\<lparr>records := records book @ [(nm, \<lparr>name = nm, phones = [], birthday = None\<rparr>)]\<rparr>)"
proof -
  from assms(1) have m: "map_of (records book) nm = None" by (simp add: find_def)
  show ?thesis using assms m
    by (simp add: add_contact_def add_contact_func_def input_error_def add_phone_def
        Record_init_def add_record_def update_absent)
qed

lemma show_phones_existing:
  "find book nm = Some r \<Longrightarrow> show_phones (nm # rest) book = (Inr (join '', '' (phones r)), book)"
  by (simp add: show_phones_def show_phones_func_def input_error_def)

text \<open>
  C5. With phones of ten decimal digits, \<open>add\<close> answers \<open>Contact added.\<close> and
  appends a new record holding the phone when the name is new, and answers
  \<open>Contact updated.\<close> and appends the phone to the record when the name exists,
  leaving the order of the names alone. After \<open>add\<close> of \<open>p1\<close> and then of \<open>p2\<close> for
  one name, \<open>phone\<close> lists the phones the record had before, then \<open>p1\<close>, then
  \<open>p2\<close>, separated by a comma and a blank: for a new name that is \<open>p1, p2\<close>.
\<close>

theorem add_contact_adds_or_updates:
  assumes "ten_decimal_digits p1" and "ten_decimal_digits p2"
  shows "(find book nm = None \<longrightarrow>
            add_contact (nm # p1 # rest) book =
              (Inr ''Contact added.'',
               book\<lparr>records := records book @ [(nm, \<lparr>name = nm, phones = [p1], birthday = None\<rparr>)]\<rparr>))
         \<and> (\<forall>r. find book nm = Some r \<longrightarrow>
               add_contact (nm # p1 # rest) book =
                 (Inr ''Contact updated.'', store book nm (r\<lparr>phones := phones r @ [p1]\<rparr>))
               \<and> find (store book nm (r\<lparr>phones := phones r @ [p1]\<rparr>)) nm
                   = Some (r\<lparr>phones := phones r @ [p1]\<rparr>)
               \<and> map fst (records (store book nm (r\<lparr>phones := phones r @ [p1]\<rparr>)))
                   = map fst (records book))
         \<and> fst (add_contact (nm # p2 # rest') (snd (add_contact (nm # p1 # rest) book)))
             = Inr ''Contact updated.''
         \<and> fst (show_phones (nm # rest'')
                  (snd (add_contact (nm # p2 # rest') (snd (add_contact (nm # p1 # rest) book)))))
             = Inr (join '', ''
                 ((case find book nm of None \<Rightarrow> [] | Some r \<Rightarrow> phones r) @ [p1, p2]))
         \<and> (find book nm = None \<longrightarrow>
               fst (show_phones (nm # rest'')
                  (snd (add_contact (nm # p2 # rest') (snd (add_contact (nm # p1 # rest) book)))))
               = Inr (p1 @ '', '' @ p2))"
proof -
  from assms have P1: "Phone p1 = Inr p1" and P2: "Phone p2 = Inr p2"
    by (simp_all add: Phone_ten_decimal_digits)
  let ?old = "case find book nm of None \<Rightarrow> [] | Some r \<Rightarrow> phones r"
  have two: "\<exists>book2 r2.
        add_contact (nm # p2 # rest') (snd (add_contact (nm # p1 # rest) book))
          = (Inr ''Contact updated.'', book2)
        \<and> find book2 nm = Some r2 \<and> phones r2 = ?old @ [p1, p2]"
  proof (cases "find book nm")
    case None
    let ?b1 = "book\<lparr>records := records book @ [(nm, \<lparr>name = nm, phones = [p1], birthday = None\<rparr>)]\<rparr>"
    have b1: "add_contact (nm # p1 # rest) book = (Inr ''Contact added.'', ?b1)"
      using add_contact_new [OF None P1] .
    have f1: "find ?b1 nm = Some \<lparr>name = nm, phones = [p1], birthday = None\<rparr>"
      using None by (simp add: find_def map_add_def)
    show ?thesis
      using add_contact_existing [OF f1 P2, of rest'] None f1
      by (simp add: b1 find_store)
  next
    case (Some r)
    let ?b1 = "store book nm (r\<lparr>phones := phones r @ [p1]\<rparr>)"
    have b1: "add_contact (nm # p1 # rest) book = (Inr ''Contact updated.'', ?b1)"
      using add_contact_existing [OF Some P1] .
    have f1: "find ?b1 nm = Some (r\<lparr>phones := phones r @ [p1]\<rparr>)"
      using Some by (simp add: find_store)
    show ?thesis
      using add_contact_existing [OF f1 P2, of rest'] Some f1
      by (simp add: b1 find_store)
  qed
  then obtain book2 r2 where
    a2: "add_contact (nm # p2 # rest') (snd (add_contact (nm # p1 # rest) book))
          = (Inr ''Contact updated.'', book2)"
    and f2: "find book2 nm = Some r2" and r2: "phones r2 = ?old @ [p1, p2]"
    by blast
  have sp: "show_phones (nm # rest'') book2 = (Inr (join '', '' (?old @ [p1, p2])), book2)"
    using show_phones_existing [OF f2] r2 by simp
  have c1: "find book nm = None \<longrightarrow>
            add_contact (nm # p1 # rest) book =
              (Inr ''Contact added.'',
               book\<lparr>records := records book @ [(nm, \<lparr>name = nm, phones = [p1], birthday = None\<rparr>)]\<rparr>)"
    by (simp add: add_contact_new [OF _ P1])
  have c2: "\<forall>r. find book nm = Some r \<longrightarrow>
               add_contact (nm # p1 # rest) book =
                 (Inr ''Contact updated.'', store book nm (r\<lparr>phones := phones r @ [p1]\<rparr>))
               \<and> find (store book nm (r\<lparr>phones := phones r @ [p1]\<rparr>)) nm
                   = Some (r\<lparr>phones := phones r @ [p1]\<rparr>)
               \<and> map fst (records (store book nm (r\<lparr>phones := phones r @ [p1]\<rparr>)))
                   = map fst (records book)"
    by (simp add: add_contact_existing [OF _ P1] find_store store_keys)
  have c3: "fst (add_contact (nm # p2 # rest') (snd (add_contact (nm # p1 # rest) book)))
             = Inr ''Contact updated.''"
    by (simp add: a2)
  have c4: "fst (show_phones (nm # rest'')
                  (snd (add_contact (nm # p2 # rest') (snd (add_contact (nm # p1 # rest) book)))))
             = Inr (join '', '' (?old @ [p1, p2]))"
    by (simp add: a2 sp)
  have c5: "find book nm = None \<longrightarrow>
               fst (show_phones (nm # rest'')
                  (snd (add_contact (nm # p2 # rest') (snd (add_contact (nm # p1 # rest) book)))))
               = Inr (p1 @ '', '' @ p2)"
    unfolding c4 by simp
  from c1 c2 c3 c4 c5 show ?thesis
    by blast
qed

theorem add_contact_adds_or_updates_witness:
  "add_contact [''Alice'', ''1111111111''] AddressBook_init = (Inr ''Contact added.'', book_Alice)
   \<and> add_contact [''Alice'', ''2222222222''] book_Alice =
       (Inr ''Contact updated.'',
        \<lparr>records = [(''Alice'', \<lparr>name = ''Alice'', phones = [''1111111111'', ''2222222222''],
                                birthday = None\<rparr>)]\<rparr>)
   \<and> fst (show_phones [''Alice'']
        (snd (add_contact [''Alice'', ''2222222222'']
           (snd (add_contact [''Alice'', ''1111111111''] AddressBook_init)))))
      = Inr ''1111111111, 2222222222''"
proof -
  have d1: "ten_decimal_digits ''1111111111''" and d2: "ten_decimal_digits ''2222222222''"
    by (simp_all add: ten_decimal_digits_def char_isdecimal_def)
  note t1 = add_contact_adds_or_updates [OF d1 d2, of AddressBook_init "''Alice''" "[]" "[]" "[]"]
  note t2 = add_contact_adds_or_updates [OF d2 d2, of book_Alice "''Alice''" "[]" "[]" "[]"]
  have n: "find AddressBook_init ''Alice'' = None"
    by (simp add: find_def AddressBook_init_def)
  have e: "find book_Alice ''Alice''
      = Some \<lparr>name = ''Alice'', phones = [''1111111111''], birthday = None\<rparr>"
    by (simp add: find_def book_Alice_def)
  from t1 n have "add_contact [''Alice'', ''1111111111''] AddressBook_init
      = (Inr ''Contact added.'',
         AddressBook_init\<lparr>records := records AddressBook_init
           @ [(''Alice'', \<lparr>name = ''Alice'', phones = [''1111111111''], birthday = None\<rparr>)]\<rparr>)"
    by blast
  then have a: "add_contact [''Alice'', ''1111111111''] AddressBook_init
      = (Inr ''Contact added.'', book_Alice)"
    by (simp add: AddressBook_init_def book_Alice_def)
  from t2 e have "add_contact [''Alice'', ''2222222222''] book_Alice =
       (Inr ''Contact updated.'',
        store book_Alice ''Alice''
          (\<lparr>name = ''Alice'', phones = [''1111111111''], birthday = None\<rparr>
             \<lparr>phones := phones \<lparr>name = ''Alice'', phones = [''1111111111''], birthday = None\<rparr>
                @ [''2222222222'']\<rparr>))"
    by blast
  then have b: "add_contact [''Alice'', ''2222222222''] book_Alice =
       (Inr ''Contact updated.'',
        \<lparr>records = [(''Alice'', \<lparr>name = ''Alice'', phones = [''1111111111'', ''2222222222''],
                                birthday = None\<rparr>)]\<rparr>)"
    by (simp add: book_Alice_def store_def)
  from t1 n have "fst (show_phones [''Alice'']
        (snd (add_contact [''Alice'', ''2222222222'']
           (snd (add_contact [''Alice'', ''1111111111''] AddressBook_init)))))
      = Inr (''1111111111'' @ '', '' @ ''2222222222'')"
    by blast
  then have c: "fst (show_phones [''Alice'']
        (snd (add_contact [''Alice'', ''2222222222'']
           (snd (add_contact [''Alice'', ''1111111111''] AddressBook_init)))))
      = Inr ''1111111111, 2222222222''"
    by simp
  from a b c show ?thesis by blast
qed


text \<open>
  C8, as stated, for every phone that is not ten digits: the empty string is not ten
  digits, and \<open>add\<close> skips \<open>add_phone\<close> for it (\<open>if phone:\<close>) and answers
  \<open>Contact added.\<close>
\<close>

theorem add_contact_empty_phone_counterexample:
  "find AddressBook_init ''Bob'' = None \<and> \<not> ten_decimal_digits []
   \<and> add_contact [''Bob'', []] AddressBook_init =
       (Inr ''Contact added.'',
        \<lparr>records = [(''Bob'', \<lparr>name = ''Bob'', phones = [], birthday = None\<rparr>)]\<rparr>)"
  by (simp add: add_contact_new_empty find_def AddressBook_init_def ten_decimal_digits_def)

text \<open>
  C8, amended. For a new name and a phone that is not empty and that \<open>Phone\<close>
  rejects, \<open>add\<close> answers with the validation message and leaves a record of that
  name without phones in the book; a later \<open>add\<close> of a phone of ten decimal digits
  for the name answers \<open>Contact updated.\<close>
\<close>

theorem add_contact_rejected_phone_not_atomic:
  assumes "find book nm = None" and "phone \<noteq> []" and "\<not> (isdigit phone \<and> length phone = 10)"
  shows "add_contact (nm # phone # rest) book =
           (Inr ''Phone number must be 10 digits.'',
            book\<lparr>records := records book @ [(nm, \<lparr>name = nm, phones = [], birthday = None\<rparr>)]\<rparr>)
         \<and> find (snd (add_contact (nm # phone # rest) book)) nm
             = Some \<lparr>name = nm, phones = [], birthday = None\<rparr>
         \<and> (\<forall>p rest'. ten_decimal_digits p \<longrightarrow>
               fst (add_contact (nm # p # rest') (snd (add_contact (nm # phone # rest) book)))
                 = Inr ''Contact updated.'')"
proof -
  let ?b1 = "book\<lparr>records := records book @ [(nm, \<lparr>name = nm, phones = [], birthday = None\<rparr>)]\<rparr>"
  from assms(3) have rej: "Phone phone = Inl (ValueError ''Phone number must be 10 digits.'')"
    by (auto simp: Phone_def)
  have a: "add_contact (nm # phone # rest) book = (Inr ''Phone number must be 10 digits.'', ?b1)"
    using add_contact_new_rejected [OF assms(1,2) rej] .
  have f: "find ?b1 nm = Some \<lparr>name = nm, phones = [], birthday = None\<rparr>"
    using assms(1) by (simp add: find_def map_add_def)
  have u: "fst (add_contact (nm # p # rest') ?b1) = Inr ''Contact updated.''"
    if "ten_decimal_digits p" for p rest'
    using add_contact_existing [OF f Phone_ten_decimal_digits [OF that]] by simp
  show ?thesis
    unfolding a using f u by simp
qed

theorem add_contact_rejected_phone_not_atomic_witness:
  "add_contact [''Bob'', ''222''] AddressBook_init =
     (Inr ''Phone number must be 10 digits.'',
      \<lparr>records = [(''Bob'', \<lparr>name = ''Bob'', phones = [], birthday = None\<rparr>)]\<rparr>)
   \<and> fst (add_contact [''Bob'', ''1234567890'']
          (snd (add_contact [''Bob'', ''222''] AddressBook_init))) = Inr ''Contact updated.''"
proof -
  have n: "find AddressBook_init ''Bob'' = None"
    by (simp add: find_def AddressBook_init_def)
  have ne: "''222'' \<noteq> []" by simp
  have rej: "\<not> (isdigit ''222'' \<and> length ''222'' = 10)" by simp
  have d: "ten_decimal_digits ''1234567890''"
    by (simp add: ten_decimal_digits_def char_isdecimal_def)
  note t = add_contact_rejected_phone_not_atomic [OF n ne rej, of "[]"]
  from t have a: "add_contact [''Bob'', ''222''] AddressBook_init =
     (Inr ''Phone number must be 10 digits.'',
      \<lparr>records = [(''Bob'', \<lparr>name = ''Bob'', phones = [], birthday = None\<rparr>)]\<rparr>)"
    by (simp add: AddressBook_init_def)
  from t d have b: "fst (add_contact [''Bob'', ''1234567890'']
          (snd (add_contact [''Bob'', ''222''] AddressBook_init))) = Inr ''Contact updated.''"
    by blast
  from a b show ?thesis by blast
qed

section \<open>Changing a phone\<close>

lemma change_phone_rejected:
  assumes "find book nm = Some r" "Phone new = Inl e"
  shows "change_phone (nm # old # new # rest) book =
           (Inr ''Phone number must be 10 digits.'', store book nm (remove_phone r old))"
proof -
  from assms(2) have e: "e = ValueError ''Phone number must be 10 digits.''" by (simp add: Phone_rejects_iff)
  show ?thesis using assms e
    by (simp add: change_phone_def change_phone_func_def input_error_def add_phone_def Let_def)
qed

lemma change_phone_accepted:
  assumes "find book nm = Some r" "Phone new = Inr new"
  shows "change_phone (nm # old # new # rest) book =
           (Inr ''Phone number updated.'', store book nm (r\<lparr>phones := [p \<leftarrow> phones r. p \<noteq> old] @ [new]\<rparr>))"
  using assms
  by (simp add: change_phone_def change_phone_func_def input_error_def add_phone_def Let_def remove_phone_def)


text \<open>
  C9. \<open>change\<close> with a new phone that is not ten digits is to answer with the
  validation message and to leave the record without the old phone and without the
  new one. The string of ten superscript twos is not ten decimal digits, and
  \<open>change\<close> stores it and answers \<open>Phone number updated.\<close> For the phones that
  \<open>Phone\<close> rejects the handler does what C9 says (\<open>change_phone_rejected\<close>).
\<close>

theorem change_phone_superscript_digits:
  "find book_Alice ''Alice'' = Some \<lparr>name = ''Alice'', phones = [''1111111111''], birthday = None\<rparr>
   \<and> \<not> ten_decimal_digits sup10
   \<and> change_phone [''Alice'', ''1111111111'', sup10] book_Alice =
       (Inr ''Phone number updated.'',
        \<lparr>records = [(''Alice'', \<lparr>name = ''Alice'', phones = [sup10], birthday = None\<rparr>)]\<rparr>)"
proof -
  have e: "find book_Alice ''Alice''
      = Some \<lparr>name = ''Alice'', phones = [''1111111111''], birthday = None\<rparr>"
    by (simp add: find_def book_Alice_def)
  show ?thesis
    using change_phone_accepted [OF e Phone_sup10, of "''1111111111''" "[]"] e sup10_not_decimal
    by (simp add: store_def book_Alice_def)
qed

theorem change_phone_superscript_digits_witness:
  "fst (change_phone [''Alice'', ''1111111111'', sup10] book_Alice)
     \<noteq> Inr ''Phone number must be 10 digits.''"
  using change_phone_superscript_digits by simp

section \<open>The phones of the book\<close>

text \<open>
  C10. Every stored phone is to be a string of ten decimal digits. One \<open>add\<close> on the
  empty book stores the string of ten superscript twos.
\<close>

theorem run_stores_superscript_digits:
  "run False [Cmd_add [''A'', sup10]] AddressBook_init =
     \<lparr>records = [(''A'', \<lparr>name = ''A'', phones = [sup10], birthday = None\<rparr>)]\<rparr>
   \<and> \<not> ten_decimal_digits sup10"
proof -
  have n: "find AddressBook_init ''A'' = None"
    by (simp add: find_def AddressBook_init_def)
  show ?thesis
    using add_contact_new [OF n Phone_sup10, of "[]"] sup10_not_decimal
    by (simp add: AddressBook_init_def)
qed

theorem run_stores_superscript_digits_witness:
  "map (phones \<circ> snd) (records (run False [Cmd_add [''A'', sup10]] AddressBook_init)) = [[sup10]]"
  using run_stores_superscript_digits by simp

text \<open>
  What does hold of every sequence of commands: every stored phone is one that
  \<open>Phone\<close> accepts, ten characters that \<open>str.isdigit\<close> takes for digits.
\<close>

lemma phones_accepted_iff: "phones_accepted book \<longleftrightarrow> (\<forall>(k, r) \<in> set (records book). accepted r)"
  by (simp add: phones_accepted_def accepted_def)

lemma set_update_subset: "set (AList.update k v al) \<subseteq> insert (k, v) (set al)"
  by (induction al) auto

lemma phones_accepted_store:
  assumes "phones_accepted book" and "accepted r"
  shows "phones_accepted (store book nm r)"
  using assms set_replace_value [of nm r "records book"]
  unfolding phones_accepted_iff store_def by auto

lemma phones_accepted_add_record:
  assumes "phones_accepted book" and "accepted r"
  shows "phones_accepted (add_record book r)"
  using assms set_update_subset [of "name r" r "records book"]
  unfolding phones_accepted_iff add_record_def by auto

lemma phones_accepted_find:
  assumes "phones_accepted book" and "find book nm = Some r"
  shows "accepted r"
  using assms map_of_SomeD [of "records book" nm r]
  unfolding phones_accepted_iff find_def by auto

lemma accepted_Record_init: "accepted (Record_init nm)"
  by (simp add: accepted_def Record_init_def)

lemma accepted_add_phone: "accepted r \<Longrightarrow> add_phone r p = Inr r' \<Longrightarrow> accepted r'"
  by (auto simp: add_phone_def accepted_def Phone_accepts_iff split: sum.splits)

lemma accepted_remove_phone: "accepted r \<Longrightarrow> accepted (remove_phone r p)"
  by (simp add: accepted_def remove_phone_def)

lemma accepted_add_birthday_rec: "accepted r \<Longrightarrow> add_birthday_rec r v = Inr r' \<Longrightarrow> accepted r'"
  by (auto simp: add_birthday_rec_def accepted_def split: sum.splits)

lemma snd_input_error: "snd (input_error func args book) = snd (func args book)"
  by (auto simp: input_error_def split: prod.splits sum.splits exn.splits)

lemma phones_accepted_add_contact:
  assumes "phones_accepted book"
  shows "phones_accepted (snd (add_contact args book))"
proof (cases "length args < 2")
  case True
  with assms show ?thesis
    by (simp add: add_contact_def snd_input_error add_contact_func_def Let_def)
next
  case False
  show ?thesis
  proof (cases "find book (args ! 0)")
    case None
    have b1: "phones_accepted (add_record book (Record_init (args ! 0)))"
      by (rule phones_accepted_add_record [OF assms accepted_Record_init])
    show ?thesis
    proof (cases "add_phone (Record_init (args ! 0)) (args ! 1)")
      case (Inl e)
      with False None b1 show ?thesis
        by (simp add: add_contact_def snd_input_error add_contact_func_def Let_def)
    next
      case (Inr r')
      then have "accepted r'" using accepted_add_phone [OF accepted_Record_init] by blast
      then have "phones_accepted (store (add_record book (Record_init (args ! 0))) (args ! 0) r')"
        by (rule phones_accepted_store [OF b1])
      with False None Inr b1 show ?thesis
        by (simp add: add_contact_def snd_input_error add_contact_func_def Let_def)
    qed
  next
    case (Some r)
    then have r: "accepted r" by (rule phones_accepted_find [OF assms])
    show ?thesis
    proof (cases "add_phone r (args ! 1)")
      case (Inl e)
      with False Some assms show ?thesis
        by (simp add: add_contact_def snd_input_error add_contact_func_def Let_def)
    next
      case (Inr r')
      then have "accepted r'" using accepted_add_phone [OF r] by blast
      then have "phones_accepted (store book (args ! 0) r')"
        by (rule phones_accepted_store [OF assms])
      with False Some Inr assms show ?thesis
        by (simp add: add_contact_def snd_input_error add_contact_func_def Let_def)
    qed
  qed
qed

lemma phones_accepted_change_phone:
  assumes "phones_accepted book"
  shows "phones_accepted (snd (change_phone args book))"
proof (cases "length args < 3")
  case True
  with assms show ?thesis
    by (simp add: change_phone_def snd_input_error change_phone_func_def)
next
  case False
  show ?thesis
  proof (cases "find book (args ! 0)")
    case None
    with False assms show ?thesis
      by (simp add: change_phone_def snd_input_error change_phone_func_def)
  next
    case (Some r)
    then have "accepted r" by (rule phones_accepted_find [OF assms])
    then have r1: "accepted (remove_phone r (args ! 1))" by (rule accepted_remove_phone)
    then have b1: "phones_accepted (store book (args ! 0) (remove_phone r (args ! 1)))"
      by (rule phones_accepted_store [OF assms])
    show ?thesis
    proof (cases "add_phone (remove_phone r (args ! 1)) (args ! 2)")
      case (Inl e)
      with False Some b1 show ?thesis
        by (simp add: change_phone_def snd_input_error change_phone_func_def)
    next
      case (Inr r2)
      then have "accepted r2" using accepted_add_phone [OF r1] by blast
      then have "phones_accepted (store book (args ! 0) r2)"
        by (rule phones_accepted_store [OF assms])
      with False Some Inr show ?thesis
        by (simp add: change_phone_def snd_input_error change_phone_func_def)
    qed
  qed
qed

lemma phones_accepted_add_birthday:
  assumes "phones_accepted book"
  shows "phones_accepted (snd (add_birthday args book))"
proof (cases "length args < 2")
  case True
  with assms show ?thesis
    by (simp add: add_birthday_def snd_input_error add_birthday_func_def)
next
  case False
  show ?thesis
  proof (cases "find book (args ! 0)")
    case None
    with False assms show ?thesis
      by (simp add: add_birthday_def snd_input_error add_birthday_func_def)
  next
    case (Some r)
    then have r: "accepted r" by (rule phones_accepted_find [OF assms])
    show ?thesis
    proof (cases "add_birthday_rec r (args ! 1)")
      case (Inl e)
      with False Some assms show ?thesis
        by (simp add: add_birthday_def snd_input_error add_birthday_func_def)
    next
      case (Inr r')
      then have "accepted r'" using accepted_add_birthday_rec [OF r] by blast
      then have "phones_accepted (store book (args ! 0) r')"
        by (rule phones_accepted_store [OF assms])
      with False Some Inr show ?thesis
        by (simp add: add_birthday_def snd_input_error add_birthday_func_def)
    qed
  qed
qed

lemma snd_show_phones: "snd (show_phones args book) = book"
  by (simp add: show_phones_def snd_input_error show_phones_func_def split: option.splits)

lemma snd_show_all: "snd (show_all args book) = book"
  by (simp add: show_all_def snd_input_error show_all_func_def)

lemma snd_show_birthday: "snd (show_birthday zpad args book) = book"
  by (simp add: show_birthday_def snd_input_error show_birthday_func_def split: option.splits)

lemma snd_birthdays: "snd (birthdays zpad today args book) = book"
  by (simp add: birthdays_def snd_input_error birthdays_func_def split: sum.splits)

lemma phones_accepted_dispatch:
  "phones_accepted book \<Longrightarrow> phones_accepted (snd (dispatch zpad c book))"
  by (cases c)
    (simp_all add: phones_accepted_add_contact phones_accepted_change_phone
      phones_accepted_add_birthday snd_show_phones snd_show_all snd_show_birthday snd_birthdays)

lemma phones_accepted_run:
  "phones_accepted book \<Longrightarrow> phones_accepted (run zpad cs book)"
  by (induction cs arbitrary: book) (simp_all add: phones_accepted_dispatch)

lemma phones_accepted_from_empty: "phones_accepted (run zpad cs AddressBook_init)"
  by (rule phones_accepted_run) (simp add: phones_accepted_def AddressBook_init_def)

section \<open>The regular expression of \<open>strptime\<close>\<close>

lemma decimal_ascii:
  "ascii CHR ''0'' CHR ''9'' c \<Longrightarrow> isdecimal c \<and> decimal c = int c - 48"
  by (auto simp: ascii_def isdecimal_def decimal_def decimal_zero_def Nd_zeros_def)

lemma decimal_bounds: "isdecimal c \<Longrightarrow> 0 \<le> decimal c \<and> decimal c \<le> 9"
  by (auto simp: isdecimal_def decimal_def decimal_zero_def find_Some_iff split: option.splits)

lemma isdecimal_below: "c < 0x660 \<Longrightarrow> isdecimal c \<longleftrightarrow> ascii CHR ''0'' CHR ''9'' c"
  by (auto simp: ascii_def isdecimal_def decimal_zero_def Nd_zeros_def)

lemma dot_not_decimal: "\<not> isdecimal (of_char CHR ''.'')"
  by (simp add: isdecimal_below ascii_def)

lemma blank_not_decimal: "\<not> isdecimal (of_char CHR '' '')"
  by (simp add: isdecimal_below ascii_def)

lemma match_alt_sound:
  "match_alt cs s = Some (m, r) \<Longrightarrow> s = m @ r \<and> list_all2 (\<lambda>x c. in_cls c x) m cs"
  by (induction cs s arbitrary: m r rule: match_alt.induct)
     (auto split: option.splits if_splits)

lemma match_alt_complete:
  "list_all2 (\<lambda>x c. in_cls c x) m cs \<Longrightarrow> match_alt cs (m @ r) = Some (m, r)"
  by (induction m cs rule: list_all2_induct) auto

lemma match_alt_iff:
  "match_alt cs s = Some (m, r) \<longleftrightarrow> s = m @ r \<and> list_all2 (\<lambda>x c. in_cls c x) m cs"
  using match_alt_sound match_alt_complete by blast

lemma match_all_Nil_iff: "(ms, fin) \<in> set (match_all [] s) \<longleftrightarrow> ms = [] \<and> fin = s"
  by auto

lemma match_all_Cons_iff:
  "(ms, fin) \<in> set (match_all (g # gs) s) \<longleftrightarrow>
     (\<exists>m r ms'. m \<in> lang g \<and> s = m @ r \<and> ms = m # ms' \<and> (ms', fin) \<in> set (match_all gs r))"
  (is "?L \<longleftrightarrow> ?R")
proof -
  define F where "F = (\<lambda>a. case match_alt a s of None \<Rightarrow> []
                 | Some (m, r) \<Rightarrow> map (\<lambda>(ms, fin). (m # ms, fin)) (match_all gs r))"
  have eq: "match_all (g # gs) s = concat (map F g)"
    by (simp add: F_def)
  have L: "?L \<longleftrightarrow> (\<exists>a\<in>set g. (ms, fin) \<in> set (F a))"
    unfolding eq by auto
  have Fa: "(ms, fin) \<in> set (F a) \<longleftrightarrow>
      (\<exists>m r ms'. match_alt a s = Some (m, r) \<and> ms = m # ms' \<and> (ms', fin) \<in> set (match_all gs r))"
    for a
    by (cases "match_alt a s") (auto simp: F_def)
  show ?thesis
    unfolding L Fa match_alt_iff lang_def by blast
qed

lemma match_format_iff:
  "(ms, fin) \<in> set (match_all format_regex s) \<longleftrightarrow>
     (\<exists>d m y. ms = [d, codes ''.'', m, codes ''.'', y]
        \<and> s = d @ codes ''.'' @ m @ codes ''.'' @ y @ fin
        \<and> d \<in> lang re_d \<and> m \<in> lang re_m \<and> y \<in> lang re_Y)"
proof -
  have dot: "x \<in> lang re_dot \<longleftrightarrow> x = codes ''.''" for x
    by (auto simp: lang_def re_dot_def list_all2_Cons2 codes_def)
  show ?thesis
    unfolding format_regex_def
    by (simp only: match_all_Cons_iff match_all_Nil_iff dot) (auto; blast?)
qed

lemma lang_re_d: "d \<in> lang re_d \<longleftrightarrow> day_of d \<noteq> None"
  by (auto simp: lang_def re_d_def list_all2_Cons2 day_of_def ascii_def split: list.splits)

lemma lang_re_m: "m \<in> lang re_m \<longleftrightarrow> month_of m \<noteq> None"
  by (auto simp: lang_def re_m_def list_all2_Cons2 month_of_def ascii_def split: list.splits)

lemma lang_re_Y: "y \<in> lang re_Y \<longleftrightarrow> year_of y \<noteq> None"
  by (auto simp: lang_def re_Y_def list_all2_Cons2 year_of_def split: list.splits)

lemma day_of_value: "day_of d = Some n \<Longrightarrow> int_of_group d = n"
  using decimal_ascii [of 48] decimal_ascii [of 51]
  by (auto simp: day_of_def int_of_group_def ascii_def split: list.splits if_splits)

lemma month_of_value: "month_of m = Some n \<Longrightarrow> int_of_group m = n"
  using decimal_ascii [of 48] decimal_ascii [of 49]
  by (auto simp: month_of_def int_of_group_def ascii_def split: list.splits if_splits)

lemma year_of_value: "year_of y = Some n \<Longrightarrow> int_of_group y = n"
  using blank_not_decimal
  by (auto simp: year_of_def int_of_group_def split: list.splits if_splits)

lemma day_of_no_dot: "day_of d = Some n \<Longrightarrow> of_char CHR ''.'' \<notin> set d"
  using dot_not_decimal
  by (auto simp: day_of_def ascii_def split: list.splits if_splits)

lemma month_of_no_dot: "month_of m = Some n \<Longrightarrow> of_char CHR ''.'' \<notin> set m"
  by (auto simp: month_of_def ascii_def split: list.splits if_splits)

lemma year_of_length: "year_of y = Some n \<Longrightarrow> length y = 4"
  by (auto simp: year_of_def split: list.splits if_splits)

lemma year_of_bounds: "year_of y = Some n \<Longrightarrow> 0 \<le> n \<and> n \<le> 9999"
proof -
  assume "year_of y = Some n"
  then obtain a b c d where "isdecimal a" "isdecimal b" "isdecimal c" "isdecimal d"
    and n: "n = 1000 * decimal a + 100 * decimal b + 10 * decimal c + decimal d"
    by (auto simp: year_of_def split: list.splits if_splits)
  then have "0 \<le> decimal a \<and> decimal a \<le> 9" "0 \<le> decimal b \<and> decimal b \<le> 9"
    "0 \<le> decimal c \<and> decimal c \<le> 9" "0 \<le> decimal d \<and> decimal d \<le> 9"
    by (simp_all add: decimal_bounds)
  with n show ?thesis by linarith
qed

section \<open>Birthday validation\<close>

lemma split_at_dot_unique:
  assumes "of_char CHR ''.'' \<notin> set a" and "of_char CHR ''.'' \<notin> set b"
    and "a @ codes ''.'' @ x = b @ codes ''.'' @ y"
  shows "a = b \<and> x = y"
proof -
  let ?dot = "of_char CHR ''.'' :: nat"
  have c: "codes ''.'' = [?dot]" by (simp add: codes_def)
  have "takeWhile (\<lambda>c. c \<noteq> ?dot) (a @ [?dot] @ x) = a"
    using assms(1) by (auto simp: takeWhile_tail)
  moreover have "takeWhile (\<lambda>c. c \<noteq> ?dot) (b @ [?dot] @ y) = b"
    using assms(2) by (auto simp: takeWhile_tail)
  ultimately have "a = b" using assms(3) unfolding c by simp
  with assms(3) show ?thesis by simp
qed

lemma leap_year_is_leap: "leap_year y = is_leap y"
  unfolding leap_year_def is_leap_def by presburger

lemma days_in_month_length: "1 \<le> m \<Longrightarrow> m \<le> 12 \<Longrightarrow> days_in_month y m = month_length y m"
proof -
  assume "1 \<le> m" "m \<le> 12"
  then have "m = 1 \<or> m = 2 \<or> m = 3 \<or> m = 4 \<or> m = 5 \<or> m = 6 \<or> m = 7 \<or> m = 8
      \<or> m = 9 \<or> m = 10 \<or> m = 11 \<or> m = 12"
    by arith
  then show ?thesis
    by (auto simp: days_in_month_def DAYS_IN_MONTH_def month_length_def leap_year_is_leap)
qed

lemma month_length_le_31: "month_length y m \<le> 31"
  by (simp add: month_length_def)

lemma check_date_fields_None:
  "check_date_fields y m d = None \<longleftrightarrow> calendar_date y m d \<and> y \<le> 9999"
  by (auto simp: check_date_fields_def calendar_date_def days_in_month_length)

lemma check_date_fields_ValueError:
  "check_date_fields y m d = Some e \<Longrightarrow> \<exists>msg. e = ValueError msg"
  by (auto simp: check_date_fields_def split: if_splits)

lemma match_format_unique:
  assumes "(g1, r1) \<in> set (match_all format_regex s)"
    and "(g2, r2) \<in> set (match_all format_regex s)"
  shows "g1 = g2 \<and> r1 = r2"
proof -
  from assms(1) obtain d1 m1 y1 where g1: "g1 = [d1, codes ''.'', m1, codes ''.'', y1]"
    and s1: "s = d1 @ codes ''.'' @ m1 @ codes ''.'' @ y1 @ r1"
    and l1: "d1 \<in> lang re_d" "m1 \<in> lang re_m" "y1 \<in> lang re_Y"
    unfolding match_format_iff by blast
  from assms(2) obtain d2 m2 y2 where g2: "g2 = [d2, codes ''.'', m2, codes ''.'', y2]"
    and s2: "s = d2 @ codes ''.'' @ m2 @ codes ''.'' @ y2 @ r2"
    and l2: "d2 \<in> lang re_d" "m2 \<in> lang re_m" "y2 \<in> lang re_Y"
    unfolding match_format_iff by blast
  from l1 l2 have nd: "of_char CHR ''.'' \<notin> set d1" "of_char CHR ''.'' \<notin> set d2"
    and nm: "of_char CHR ''.'' \<notin> set m1" "of_char CHR ''.'' \<notin> set m2"
    and ly: "length y1 = 4" "length y2 = 4"
    by (auto simp: lang_re_d lang_re_m lang_re_Y
        dest: day_of_no_dot month_of_no_dot year_of_length)
  from s1 s2 have "d1 @ codes ''.'' @ (m1 @ codes ''.'' @ y1 @ r1)
      = d2 @ codes ''.'' @ (m2 @ codes ''.'' @ y2 @ r2)"
    by simp
  from split_at_dot_unique [OF nd this]
  have d: "d1 = d2" and rest: "m1 @ codes ''.'' @ (y1 @ r1) = m2 @ codes ''.'' @ (y2 @ r2)"
    by simp_all
  from split_at_dot_unique [OF nm rest]
  have m: "m1 = m2" and rest2: "y1 @ r1 = y2 @ r2"
    by simp_all
  from rest2 ly have "y1 = y2 \<and> r1 = r2" by simp
  with d m g1 g2 show ?thesis by simp
qed

lemma match_format_head:
  assumes "(g, r) \<in> set (match_all format_regex s)"
  shows "\<exists>t. match_all format_regex s = (g, r) # t"
proof (cases "match_all format_regex s")
  case Nil
  with assms show ?thesis by simp
next
  case (Cons x t)
  obtain g' r' where x: "x = (g', r')" by (cases x)
  with Cons have "(g', r') \<in> set (match_all format_regex s)" by simp
  from match_format_unique [OF this assms] x Cons show ?thesis by simp
qed

lemma strptime_accepts_iff: "strptime s = Inr dt \<longleftrightarrow> date_text s dt"
proof
  assume ok: "strptime s = Inr dt"
  then obtain groups rest t where ma: "match_all format_regex s = (groups, rest) # t"
    by (auto simp: strptime_def split: list.splits)
  then have "(groups, rest) \<in> set (match_all format_regex s)" by simp
  then obtain ds ms ys where g: "groups = [ds, codes ''.'', ms, codes ''.'', ys]"
    and s: "s = ds @ codes ''.'' @ ms @ codes ''.'' @ ys @ rest"
    and l: "ds \<in> lang re_d" "ms \<in> lang re_m" "ys \<in> lang re_Y"
    unfolding match_format_iff by blast
  from l obtain d m y where v: "day_of ds = Some d" "month_of ms = Some m" "year_of ys = Some y"
    by (auto simp: lang_re_d lang_re_m lang_re_Y)
  then have i: "int_of_group ds = d" "int_of_group ms = m" "int_of_group ys = y"
    by (simp_all add: day_of_value month_of_value year_of_value)
  from ok ma g i have rest: "rest = []"
    and chk: "check_date_fields y m d = None"
    and dt: "dt = midnight y m d"
    by (auto simp: strptime_def midnight_def split: if_splits option.splits)
  from chk have cal: "calendar_date y m d" by (simp add: check_date_fields_None)
  from s rest have "s = ds @ codes ''.'' @ ms @ codes ''.'' @ ys" by simp
  with v cal dt show "date_text s dt"
    unfolding date_text_def by blast
next
  assume "date_text s dt"
  then obtain ds ms ys y m d where s: "s = ds @ codes ''.'' @ ms @ codes ''.'' @ ys"
    and v: "day_of ds = Some d" "month_of ms = Some m" "year_of ys = Some y"
    and cal: "calendar_date y m d" and dt: "dt = midnight y m d"
    unfolding date_text_def by blast
  from v have i: "int_of_group ds = d" "int_of_group ms = m" "int_of_group ys = y"
    by (simp_all add: day_of_value month_of_value year_of_value)
  from cal year_of_bounds [OF v(3)] have chk: "check_date_fields y m d = None"
    by (simp add: check_date_fields_None)
  from v have "ds \<in> lang re_d" "ms \<in> lang re_m" "ys \<in> lang re_Y"
    by (simp_all add: lang_re_d lang_re_m lang_re_Y)
  with s have "([ds, codes ''.'', ms, codes ''.'', ys], []) \<in> set (match_all format_regex s)"
    unfolding match_format_iff by simp
  from match_format_head [OF this] obtain t' where
    "match_all format_regex s = ([ds, codes ''.'', ms, codes ''.'', ys], []) # t'" ..
  with chk dt i show "strptime s = Inr dt"
    by (simp add: strptime_def midnight_def)
qed

lemma strptime_ValueError: "strptime s = Inl e \<Longrightarrow> \<exists>msg. e = ValueError msg"
  by (auto simp: strptime_def split: list.splits if_splits option.splits
      dest: check_date_fields_ValueError)

lemma Birthday_accepts_iff: "Birthday s = Inr dt \<longleftrightarrow> date_text s dt"
proof -
  have "Birthday s = Inr dt \<longleftrightarrow> strptime s = Inr dt"
    by (auto simp: Birthday_def split: sum.splits exn.splits)
  then show ?thesis by (simp add: strptime_accepts_iff)
qed


lemma Birthday_Inl:
  "Birthday s = Inl e \<Longrightarrow> e = ValueError ''Invalid date format. Use DD.MM.YYYY''"
  using strptime_ValueError [of s]
  by (cases "strptime s") (auto simp: Birthday_def)

lemma matches_DD_MM_YYYY_iff:
  "matches_DD_MM_YYYY s \<longleftrightarrow>
     (\<exists>d1 d2 m1 m2 y1 y2 y3 y4.
        s = [d1, d2] @ codes ''.'' @ [m1, m2] @ codes ''.'' @ [y1, y2, y3, y4]
        \<and> ascii CHR ''0'' CHR ''9'' d1 \<and> ascii CHR ''0'' CHR ''9'' d2
        \<and> ascii CHR ''0'' CHR ''9'' m1 \<and> ascii CHR ''0'' CHR ''9'' m2
        \<and> ascii CHR ''0'' CHR ''9'' y1 \<and> ascii CHR ''0'' CHR ''9'' y2
        \<and> ascii CHR ''0'' CHR ''9'' y3 \<and> ascii CHR ''0'' CHR ''9'' y4)"
  (is "?L \<longleftrightarrow> ?R")
proof
  assume ?L
  then have len: "length s = 10" by (simp add: matches_DD_MM_YYYY_def)
  then obtain d1 d2 p m1 m2 q y1 y2 y3 y4 where s: "s = [d1, d2, p, m1, m2, q, y1, y2, y3, y4]"
    by (auto simp: length_Suc_conv numeral_eq_Suc)
  with \<open>?L\<close> show ?R
    by (simp add: matches_DD_MM_YYYY_def codes_def)
next
  assume ?R
  then show ?L by (auto simp: matches_DD_MM_YYYY_def codes_def)
qed

lemma number_2: "number [a, b] = 10 * (int a - 48) + (int b - 48)"
  by (simp add: number_def)

lemma number_4:
  "number [a, b, c, d] = 1000 * (int a - 48) + 100 * (int b - 48) + 10 * (int c - 48) + (int d - 48)"
  by (simp add: number_def)

lemma day_of_ascii:
  assumes "ascii CHR ''0'' CHR ''9'' a" and "ascii CHR ''0'' CHR ''9'' b"
  shows "day_of [a, b] = Some n \<longleftrightarrow> n = number [a, b] \<and> 1 \<le> n \<and> n \<le> 31"
  using assms decimal_ascii [OF assms(1)] decimal_ascii [OF assms(2)]
  by (auto simp: day_of_def number_2 ascii_def)

lemma month_of_ascii:
  assumes "ascii CHR ''0'' CHR ''9'' a" and "ascii CHR ''0'' CHR ''9'' b"
  shows "month_of [a, b] = Some n \<longleftrightarrow> n = number [a, b] \<and> 1 \<le> n \<and> n \<le> 12"
  using assms decimal_ascii [OF assms(1)] decimal_ascii [OF assms(2)]
  by (auto simp: month_of_def number_2 ascii_def)

lemma year_of_ascii:
  assumes "ascii CHR ''0'' CHR ''9'' a" and "ascii CHR ''0'' CHR ''9'' b"
    and "ascii CHR ''0'' CHR ''9'' c" and "ascii CHR ''0'' CHR ''9'' d"
  shows "year_of [a, b, c, d] = Some (number [a, b, c, d])"
  using decimal_ascii [OF assms(1)] decimal_ascii [OF assms(2)]
    decimal_ascii [OF assms(3)] decimal_ascii [OF assms(4)]
  by (simp add: year_of_def number_4)

lemma ascii_no_dot: "ascii CHR ''0'' CHR ''9'' a \<Longrightarrow> a \<noteq> of_char CHR ''.''"
  by (auto simp: ascii_def)

lemma date_text_DD_MM_YYYY:
  assumes dec: "ascii CHR ''0'' CHR ''9'' d1" "ascii CHR ''0'' CHR ''9'' d2"
      "ascii CHR ''0'' CHR ''9'' m1" "ascii CHR ''0'' CHR ''9'' m2"
      "ascii CHR ''0'' CHR ''9'' y1" "ascii CHR ''0'' CHR ''9'' y2"
      "ascii CHR ''0'' CHR ''9'' y3" "ascii CHR ''0'' CHR ''9'' y4"
  shows "date_text ([d1, d2] @ codes ''.'' @ [m1, m2] @ codes ''.'' @ [y1, y2, y3, y4]) dt \<longleftrightarrow>
           calendar_date (number [y1, y2, y3, y4]) (number [m1, m2]) (number [d1, d2])
           \<and> dt = midnight (number [y1, y2, y3, y4]) (number [m1, m2]) (number [d1, d2])"
  (is "date_text ?s dt \<longleftrightarrow> ?R")
proof
  assume "date_text ?s dt"
  then obtain ds ms ys y m d where s: "?s = ds @ codes ''.'' @ ms @ codes ''.'' @ ys"
    and v: "day_of ds = Some d" "month_of ms = Some m" "year_of ys = Some y"
    and cal: "calendar_date y m d" and dt: "dt = midnight y m d"
    unfolding date_text_def by blast
  have n1: "of_char CHR ''.'' \<notin> set [d1, d2]" "of_char CHR ''.'' \<notin> set [m1, m2]"
    using dec ascii_no_dot by auto
  from s have "[d1, d2] @ codes ''.'' @ ([m1, m2] @ codes ''.'' @ [y1, y2, y3, y4])
      = ds @ codes ''.'' @ (ms @ codes ''.'' @ ys)"
    by simp
  from split_at_dot_unique [OF n1(1) day_of_no_dot [OF v(1)] this]
  have ds: "ds = [d1, d2]" and r: "[m1, m2] @ codes ''.'' @ [y1, y2, y3, y4] = ms @ codes ''.'' @ ys"
    by simp_all
  from split_at_dot_unique [OF n1(2) month_of_no_dot [OF v(2)] r]
  have ms: "ms = [m1, m2]" and ys: "ys = [y1, y2, y3, y4]"
    by simp_all
  from v(1) ds have "d = number [d1, d2]" by (simp add: day_of_ascii dec)
  moreover from v(2) ms have "m = number [m1, m2]" by (simp add: month_of_ascii dec)
  moreover from v(3) ys have "y = number [y1, y2, y3, y4]" by (simp add: year_of_ascii dec)
  ultimately show ?R using cal dt by simp
next
  assume R: ?R
  let ?y = "number [y1, y2, y3, y4]" and ?m = "number [m1, m2]" and ?d = "number [d1, d2]"
  from R have cal: "calendar_date ?y ?m ?d" and dt: "dt = midnight ?y ?m ?d" by simp_all
  from cal month_length_le_31 [of ?y ?m] have "1 \<le> ?d" "?d \<le> 31" "1 \<le> ?m" "?m \<le> 12"
    by (simp_all add: calendar_date_def)
  then have "day_of [d1, d2] = Some ?d" "month_of [m1, m2] = Some ?m"
    by (simp_all add: day_of_ascii month_of_ascii dec)
  moreover have "year_of [y1, y2, y3, y4] = Some ?y"
    by (rule year_of_ascii) (rule dec)+
  ultimately show "date_text ?s dt"
    unfolding date_text_def using cal dt by blast
qed


lemmas Birthday_eval = Birthday_def strptime_def format_regex_def re_d_def re_m_def re_Y_def
  re_dot_def int_of_group_def check_date_fields_def days_in_month_def is_leap_def
  DAYS_IN_MONTH_def codes_def isdecimal_def decimal_def decimal_zero_def Nd_zeros_def


lemma Birthday_29_02_2024:
  "Birthday (codes ''29.02.2024'') = Inr (midnight 2024 2 29)"
  by (simp add: Birthday_eval midnight_def)



text \<open>The same date with Arabic-Indic digits throughout is not accepted.\<close>

lemma Birthday_arabic_indic_throughout:
  "Birthday [0x661, 0x665, 0x2E, 0x660, 0x666, 0x2E, 0x661, 0x669, 0x669, 0x660]
     = Inl (ValueError ''Invalid date format. Use DD.MM.YYYY'')"
  by (simp add: Birthday_eval)




section \<open>Setting and showing a birthday\<close>

lemma Birthday_valid:
  assumes "Birthday s = Inr d"
  shows "check_date_fields (year d) (month d) (day d) = None
         \<and> hour d = 0 \<and> minute d = 0 \<and> second d = 0 \<and> microsecond d = 0"
proof -
  from assms obtain ys y m dd where y: "year_of ys = Some y" and cal: "calendar_date y m dd"
    and d: "d = midnight y m dd"
    unfolding Birthday_accepts_iff date_text_def by blast
  from cal year_of_bounds [OF y] have "check_date_fields y m dd = None"
    by (simp add: check_date_fields_None)
  with d show ?thesis by (simp add: midnight_def)
qed

lemma add_birthday_existing:
  assumes "find book nm = Some r" and "Birthday (codes s) = Inr d"
  shows "add_birthday (nm # s # rest) book =
           (Inr ''Birthday added.'', store book nm (r\<lparr>birthday := Some d\<rparr>))"
  using assms
  by (simp add: add_birthday_def add_birthday_func_def input_error_def add_birthday_rec_def)

lemma add_birthday_rejected:
  assumes "find book nm = Some r" and "Birthday (codes s) = Inl e"
  shows "add_birthday (nm # s # rest) book = (Inr ''Invalid date format. Use DD.MM.YYYY'', book)"
  using assms Birthday_Inl [OF assms(2)]
  by (simp add: add_birthday_def add_birthday_func_def input_error_def add_birthday_rec_def)

lemma show_birthday_set:
  assumes "find book nm = Some r" and "birthday r = Some d"
  shows "show_birthday zpad (nm # rest) book = (Inr (strftime zpad d), book)"
  using assms
  by (simp add: show_birthday_def show_birthday_func_def input_error_def)

lemma show_birthday_unset:
  assumes "find book nm = Some r" and "birthday r = None"
  shows "show_birthday zpad (nm # rest) book = (Inr ''No birthday set.'', book)"
  using assms
  by (simp add: show_birthday_def show_birthday_func_def input_error_def)

lemma code_digit_char: "of_char (digit_char n) = 48 + nat (n mod 10)"
proof -
  have "0 \<le> n mod 10" "n mod 10 < 10" by simp_all
  then have "n mod 10 = 0 \<or> n mod 10 = 1 \<or> n mod 10 = 2 \<or> n mod 10 = 3 \<or> n mod 10 = 4
      \<or> n mod 10 = 5 \<or> n mod 10 = 6 \<or> n mod 10 = 7 \<or> n mod 10 = 8 \<or> n mod 10 = 9"
    by arith
  then show ?thesis
    by (auto simp: digit_char_def)
qed

lemma ascii_digit_char: "ascii CHR ''0'' CHR ''9'' (of_char (digit_char n))"
proof -
  have "0 \<le> n mod 10" "n mod 10 < 10" by simp_all
  then show ?thesis by (simp add: code_digit_char ascii_def)
qed

lemma int_code_digit_char: "int (of_char (digit_char n)) - 48 = n mod 10"
  by (simp add: code_digit_char)

lemma codes_inj: "codes s = codes t \<Longrightarrow> s = t"
  by (induction s arbitrary: t) (auto simp: codes_def)

lemma codes_pad2: "codes (pad2 n) = [of_char (digit_char (n div 10)), of_char (digit_char n)]"
  by (simp add: pad2_def codes_def)

lemma codes_pad4:
  "codes (pad4 n) = [of_char (digit_char (n div 1000)), of_char (digit_char (n div 100)),
                     of_char (digit_char (n div 10)), of_char (digit_char n)]"
  by (simp add: pad4_def codes_def)

lemma codes_append: "codes (s @ t) = codes s @ codes t"
  by (simp add: codes_def)

lemma number_pad2: "0 \<le> n \<Longrightarrow> n < 100 \<Longrightarrow> number (codes (pad2 n)) = n"
  by (simp add: codes_pad2 number_2 int_code_digit_char)

lemma four_digits:
  fixes n :: int
  assumes "0 \<le> n" and "n < 10000"
  shows "1000 * (n div 1000 mod 10) + 100 * (n div 100 mod 10) + 10 * (n div 10 mod 10)
           + n mod 10 = n"
proof -
  define a where "a = n div 10"
  define b where "b = a div 10"
  define c where "c = b div 10"
  define r0 where "r0 = n mod 10"
  define r1 where "r1 = a mod 10"
  define r2 where "r2 = b mod 10"
  have n: "n = 10 * a + r0" by (simp add: a_def r0_def)
  have a: "a = 10 * b + r1" by (simp add: b_def r1_def)
  have b: "b = 10 * c + r2" by (simp add: c_def r2_def)
  have d100: "n div 100 = b"
    using zdiv_zmult2_eq [of 10 n 10] by (simp add: a_def b_def)
  have d1000: "n div 1000 = c"
    using zdiv_zmult2_eq [of 10 n 100] d100 by (simp add: c_def)
  have r0: "0 \<le> r0" "r0 < 10" by (simp_all add: r0_def)
  have r1: "0 \<le> r1" "r1 < 10" by (simp_all add: r1_def)
  have r2: "0 \<le> r2" "r2 < 10" by (simp_all add: r2_def)
  have c: "0 \<le> c" "c < 10"
    using assms n a b r0 r1 r2 by linarith+
  then have cm: "c mod 10 = c" by simp
  show ?thesis
    unfolding d1000 d100 cm
    unfolding a_def [symmetric] r0_def [symmetric] r1_def [symmetric] r2_def [symmetric]
    using n a b by linarith
qed

lemma number_pad4: "0 \<le> n \<Longrightarrow> n < 10000 \<Longrightarrow> number (codes (pad4 n)) = n"
proof -
  assume n: "0 \<le> n" "n < 10000"
  have "number (codes (pad4 n)) =
      1000 * (n div 1000 mod 10) + 100 * (n div 100 mod 10) + 10 * (n div 10 mod 10) + n mod 10"
    by (simp only: codes_pad4 number_4 int_code_digit_char)
  also have "\<dots> = n" by (rule four_digits [OF n])
  finally show ?thesis .
qed

lemma pad4_thousands: "1000 \<le> n \<Longrightarrow> n < 10000 \<Longrightarrow> fmt_Y zpad n = pad4 n"
proof -
  assume n: "1000 \<le> n" "n < 10000"
  then have "1 \<le> n div 1000" "n div 1000 < 10" by linarith+
  then have "(n div 1000) mod 10 \<noteq> 0" by simp
  then have "(of_char (digit_char (n div 1000)) :: nat) \<noteq> of_char CHR ''0''"
    by (simp add: code_digit_char)
  then have "digit_char (n div 1000) \<noteq> CHR ''0''" by auto
  then show ?thesis
    by (simp add: fmt_Y_def pad4_def)
qed

lemma two_digits_inj:
  fixes x y x' y' :: int
  assumes "0 \<le> y" "y \<le> 9" "0 \<le> y'" "y' \<le> 9" "10 * x + y = 10 * x' + y'"
  shows "x = x' \<and> y = y'"
  using assms by presburger

lemma four_digits_inj:
  fixes x y z w x' y' z' w' :: int
  assumes "0 \<le> y" "y \<le> 9" "0 \<le> y'" "y' \<le> 9" "0 \<le> z" "z \<le> 9" "0 \<le> z'" "z' \<le> 9"
    "0 \<le> w" "w \<le> 9" "0 \<le> w'" "w' \<le> 9"
    "1000 * x + 100 * y + 10 * z + w = 1000 * x' + 100 * y' + 10 * z' + w'"
  shows "x = x' \<and> y = y' \<and> z = z' \<and> w = w'"
proof -
  have "10 * (100 * x + 10 * y + z) + w = 10 * (100 * x' + 10 * y' + z') + w'"
    using assms(13) by simp
  from two_digits_inj [OF assms(9-12) this]
  have w: "w = w'" and r1: "10 * (10 * x + y) + z = 10 * (10 * x' + y') + z'" by simp_all
  from two_digits_inj [OF assms(5-8) r1]
  have z: "z = z'" and r2: "10 * x + y = 10 * x' + y'" by simp_all
  from two_digits_inj [OF assms(1-4) r2] w z show ?thesis by simp
qed

lemma ascii_value: "ascii CHR ''0'' CHR ''9'' c \<Longrightarrow> 0 \<le> int c - 48 \<and> int c - 48 \<le> 9"
  by (simp add: ascii_def)

lemma strict_text_unique:
  assumes "matches_DD_MM_YYYY s" "matches_DD_MM_YYYY t"
    and "Birthday s = Inr d" "Birthday t = Inr d"
  shows "s = t"
proof -
  from assms(1) obtain d1 d2 m1 m2 y1 y2 y3 y4 where
    s: "s = [d1, d2] @ codes ''.'' @ [m1, m2] @ codes ''.'' @ [y1, y2, y3, y4]"
    and ds: "ascii CHR ''0'' CHR ''9'' d1" "ascii CHR ''0'' CHR ''9'' d2"
      "ascii CHR ''0'' CHR ''9'' m1" "ascii CHR ''0'' CHR ''9'' m2"
      "ascii CHR ''0'' CHR ''9'' y1" "ascii CHR ''0'' CHR ''9'' y2"
      "ascii CHR ''0'' CHR ''9'' y3" "ascii CHR ''0'' CHR ''9'' y4"
    unfolding matches_DD_MM_YYYY_iff by blast
  from assms(2) obtain e1 e2 n1 n2 z1 z2 z3 z4 where
    t: "t = [e1, e2] @ codes ''.'' @ [n1, n2] @ codes ''.'' @ [z1, z2, z3, z4]"
    and dt: "ascii CHR ''0'' CHR ''9'' e1" "ascii CHR ''0'' CHR ''9'' e2"
      "ascii CHR ''0'' CHR ''9'' n1" "ascii CHR ''0'' CHR ''9'' n2"
      "ascii CHR ''0'' CHR ''9'' z1" "ascii CHR ''0'' CHR ''9'' z2"
      "ascii CHR ''0'' CHR ''9'' z3" "ascii CHR ''0'' CHR ''9'' z4"
    unfolding matches_DD_MM_YYYY_iff by blast
  from assms(3) have "date_text ([d1, d2] @ codes ''.'' @ [m1, m2] @ codes ''.'' @ [y1, y2, y3, y4]) d"
    unfolding Birthday_accepts_iff s .
  then have fs: "d = midnight (number [y1, y2, y3, y4]) (number [m1, m2]) (number [d1, d2])"
    using date_text_DD_MM_YYYY [OF ds] by blast
  from assms(4) have "date_text ([e1, e2] @ codes ''.'' @ [n1, n2] @ codes ''.'' @ [z1, z2, z3, z4]) d"
    unfolding Birthday_accepts_iff t .
  then have ft: "d = midnight (number [z1, z2, z3, z4]) (number [n1, n2]) (number [e1, e2])"
    using date_text_DD_MM_YYYY [OF dt] by blast
  from fs ft have eq: "number [d1, d2] = number [e1, e2]" "number [m1, m2] = number [n1, n2]"
    "number [y1, y2, y3, y4] = number [z1, z2, z3, z4]"
    by (simp_all add: midnight_def)
  note v = ds [THEN ascii_value] dt [THEN ascii_value]
  from eq(1) have "10 * (int d1 - 48) + (int d2 - 48) = 10 * (int e1 - 48) + (int e2 - 48)"
    by (simp only: number_2)
  from two_digits_inj [OF _ _ _ _ this] v
  have a: "d1 = e1" "d2 = e2" by simp_all
  from eq(2) have "10 * (int m1 - 48) + (int m2 - 48) = 10 * (int n1 - 48) + (int n2 - 48)"
    by (simp only: number_2)
  from two_digits_inj [OF _ _ _ _ this] v
  have b: "m1 = n1" "m2 = n2" by simp_all
  from eq(3) have "1000 * (int y1 - 48) + 100 * (int y2 - 48) + 10 * (int y3 - 48) + (int y4 - 48)
      = 1000 * (int z1 - 48) + 100 * (int z2 - 48) + 10 * (int z3 - 48) + (int z4 - 48)"
    by (simp only: number_4)
  from four_digits_inj [OF _ _ _ _ _ _ _ _ _ _ _ _ this] v
  have c: "y1 = z1" "y2 = z2" "y3 = z3" "y4 = z4" by simp_all
  from a b c s t show ?thesis by simp
qed

lemma strftime_padded:
  assumes "check_date_fields (year d) (month d) (day d) = None" and "zpad \<or> 1000 \<le> year d"
  shows "strftime zpad d = pad2 (day d) @ ''.'' @ pad2 (month d) @ ''.'' @ pad4 (year d)"
proof -
  from assms(1) have "year d < 10000" by (simp add: check_date_fields_None)
  with assms(2) have "fmt_Y zpad (year d) = pad4 (year d)"
    by (auto simp: pad4_thousands) (simp add: fmt_Y_def)
  then show ?thesis by (simp add: strftime_def)
qed

lemma codes_padded:
  "codes (pad2 a @ ''.'' @ pad2 b @ ''.'' @ pad4 c)
     = codes (pad2 a) @ codes ''.'' @ codes (pad2 b) @ codes ''.'' @ codes (pad4 c)"
  by (simp only: codes_append)

lemma padded_matches: "matches_DD_MM_YYYY (codes (pad2 a @ ''.'' @ pad2 b @ ''.'' @ pad4 c))"
  unfolding codes_padded matches_DD_MM_YYYY_iff codes_pad2 codes_pad4
  using ascii_digit_char by blast

lemma Birthday_strftime:
  assumes v: "check_date_fields (year d) (month d) (day d) = None"
    and z: "hour d = 0" "minute d = 0" "second d = 0" "microsecond d = 0"
  shows "Birthday (codes (pad2 (day d) @ ''.'' @ pad2 (month d) @ ''.'' @ pad4 (year d))) = Inr d"
proof -
  from v have cal: "calendar_date (year d) (month d) (day d)" and y: "year d \<le> 9999"
    by (simp_all add: check_date_fields_None)
  from cal month_length_le_31 [of "year d" "month d"]
  have r: "1 \<le> year d" "1 \<le> month d" "month d \<le> 12" "1 \<le> day d" "day d \<le> 31"
    by (simp_all add: calendar_date_def)
  have n: "number (codes (pad2 (day d))) = day d" "number (codes (pad2 (month d))) = month d"
    "number (codes (pad4 (year d))) = year d"
    using r y by (simp_all add: number_pad2 number_pad4)
  have e: "d = midnight (year d) (month d) (day d)"
    using z by (cases d) (simp add: midnight_def)
  have "date_text (codes (pad2 (day d)) @ codes ''.'' @ codes (pad2 (month d)) @ codes ''.''
          @ codes (pad4 (year d))) d \<longleftrightarrow>
        calendar_date (number (codes (pad4 (year d)))) (number (codes (pad2 (month d))))
          (number (codes (pad2 (day d))))
        \<and> d = midnight (number (codes (pad4 (year d)))) (number (codes (pad2 (month d))))
          (number (codes (pad2 (day d))))"
    unfolding codes_pad2 codes_pad4
    by (rule date_text_DD_MM_YYYY) (rule ascii_digit_char)+
  then have "date_text (codes (pad2 (day d)) @ codes ''.'' @ codes (pad2 (month d)) @ codes ''.''
          @ codes (pad4 (year d))) d"
    unfolding n using cal e by blast
  then show ?thesis
    unfolding Birthday_accepts_iff codes_padded .
qed

lemma Birthday_15_06_0990: "Birthday (codes ''15.06.0990'') = Inr (midnight 990 6 15)"
  by (simp add: Birthday_eval midnight_def)

lemma Birthday_15_06_990:
  "Birthday (codes ''15.06.990'') = Inl (ValueError ''Invalid date format. Use DD.MM.YYYY'')"
  by (simp add: Birthday_eval)

lemma Birthday_15_06_1990: "Birthday (codes ''15.06.1990'') = Inr (midnight 1990 6 15)"
  by (simp add: Birthday_eval midnight_def)

lemma find_book_Carl:
  "find book_Carl ''Carl'' = Some \<lparr>name = ''Carl'', phones = [], birthday = None\<rparr>"
  by (simp add: find_def book_Carl_def)

lemma strftime_990:
  "strftime False (midnight 990 6 15) = ''15.06.990''"
  "strftime True (midnight 990 6 15) = ''15.06.0990''"
  by (simp_all add: strftime_def fmt_Y_def pad2_def pad4_def digit_char_def midnight_def)

lemma add_birthday_then_show_birthday:
  assumes f: "find book nm = Some r" and b: "Birthday (codes s) = Inr d"
  shows "fst (show_birthday zpad (nm # rest') (snd (add_birthday (nm # s # rest) book)))
           = Inr (strftime zpad d)"
proof -
  have a: "add_birthday (nm # s # rest) book
           = (Inr ''Birthday added.'', store book nm (r\<lparr>birthday := Some d\<rparr>))"
    by (rule add_birthday_existing [OF f b])
  have "find (store book nm (r\<lparr>birthday := Some d\<rparr>)) nm = Some (r\<lparr>birthday := Some d\<rparr>)"
    using f by (simp add: find_store)
  then have "show_birthday zpad (nm # rest') (store book nm (r\<lparr>birthday := Some d\<rparr>))
      = (Inr (strftime zpad d), store book nm (r\<lparr>birthday := Some d\<rparr>))"
    by (rule show_birthday_set) simp
  with a show ?thesis
    by simp
qed

lemma strftime_Birthday:
  assumes b: "Birthday (codes s) = Inr d" and y: "zpad \<or> 1000 \<le> year d"
  shows "strftime zpad d = pad2 (day d) @ ''.'' @ pad2 (month d) @ ''.'' @ pad4 (year d)"
    and "matches_DD_MM_YYYY (codes (strftime zpad d))"
    and "Birthday (codes (strftime zpad d)) = Inr d"
    and "matches_DD_MM_YYYY (codes s) \<Longrightarrow> strftime zpad d = s"
proof -
  from Birthday_valid [OF b] have v: "check_date_fields (year d) (month d) (day d) = None"
    and z: "hour d = 0" "minute d = 0" "second d = 0" "microsecond d = 0"
    by blast+
  show p: "strftime zpad d = pad2 (day d) @ ''.'' @ pad2 (month d) @ ''.'' @ pad4 (year d)"
    by (rule strftime_padded [OF v y])
  show m: "matches_DD_MM_YYYY (codes (strftime zpad d))"
    unfolding p by (rule padded_matches)
  show rt: "Birthday (codes (strftime zpad d)) = Inr d"
    unfolding p by (rule Birthday_strftime [OF v z])
  show "strftime zpad d = s" if "matches_DD_MM_YYYY (codes s)"
    by (rule codes_inj) (rule strict_text_unique [OF m that rt b])
qed

text \<open>
  C6. \<open>show-birthday\<close> after \<open>add-birthday\<close> is to return the stored date as
  \<open>DD.MM.YYYY\<close>. \<open>Birthday\<close> accepts \<open>15.06.0990\<close>, a date of the year 990. Where
  the C library prints \<open>%Y\<close> without leading zeros, \<open>show-birthday\<close> returns
  \<open>15.06.990\<close>, which has not the format and which \<open>Birthday\<close> itself rejects;
  where the library pads, it returns \<open>15.06.0990\<close>. For the years from 1000 on, and
  on a padding platform for every year, the handler does what C6 says
  (\<open>add_birthday_then_show_birthday\<close>, \<open>strftime_Birthday\<close>).
\<close>

theorem show_birthday_year_below_1000:
  "fst (add_birthday [''Carl'', ''15.06.0990''] book_Carl) = Inr ''Birthday added.''
   \<and> fst (show_birthday False [''Carl'']
             (snd (add_birthday [''Carl'', ''15.06.0990''] book_Carl))) = Inr ''15.06.990''
   \<and> fst (show_birthday True [''Carl'']
             (snd (add_birthday [''Carl'', ''15.06.0990''] book_Carl))) = Inr ''15.06.0990''
   \<and> \<not> matches_DD_MM_YYYY (codes ''15.06.990'')
   \<and> Birthday (codes ''15.06.990'') = Inl (ValueError ''Invalid date format. Use DD.MM.YYYY'')"
proof -
  have n: "\<not> matches_DD_MM_YYYY (codes ''15.06.990'')"
    by (simp add: matches_DD_MM_YYYY_def codes_def)
  show ?thesis
    using add_birthday_existing [OF find_book_Carl Birthday_15_06_0990, of "[]"]
      add_birthday_then_show_birthday [OF find_book_Carl Birthday_15_06_0990, of False "[]" "[]"]
      add_birthday_then_show_birthday [OF find_book_Carl Birthday_15_06_0990, of True "[]" "[]"]
      n Birthday_15_06_990
    by (simp add: strftime_990)
qed

theorem show_birthday_year_below_1000_witness:
  "fst (show_birthday False [''Carl''] (snd (add_birthday [''Carl'', ''15.06.0990''] book_Carl)))
     \<noteq> Inr ''15.06.0990''"
  using show_birthday_year_below_1000 by simp

text \<open>The example of the specification, on either platform.\<close>

lemma show_birthday_15_06_1990:
  "fst (show_birthday zpad [''Carl''] (snd (add_birthday [''Carl'', ''15.06.1990''] book_Carl)))
     = Inr ''15.06.1990''"
proof -
  have "strftime zpad (midnight 1990 6 15) = ''15.06.1990''"
    by (simp add: strftime_def fmt_Y_def pad2_def pad4_def digit_char_def midnight_def)
  then show ?thesis
    using add_birthday_then_show_birthday [OF find_book_Carl Birthday_15_06_1990, of zpad "[]" "[]"]
    by simp
qed

section \<open>Upcoming birthdays\<close>

lemma replace_year_ok:
  "check_date_fields y (month b) (day b) = None \<Longrightarrow> replace_year b y = Inr (b\<lparr>year := y\<rparr>)"
  by (simp add: replace_year_def)

lemma upcoming_loop_spec:
  assumes "\<forall>r \<in> set rs. has_occurrence today r" and "add_days today 7 = Inr limit"
  shows "upcoming_loop zpad today rs acc
           = Inr (acc @ concat (map (upcoming_entry zpad today limit) rs))"
  using assms(1)
proof (induction rs arbitrary: acc)
  case Nil
  show ?case by simp
next
  case (Cons r rs)
  then have IH: "\<And>acc. upcoming_loop zpad today rs acc
           = Inr (acc @ concat (map (upcoming_entry zpad today limit) rs))"
    by simp
  show ?case
  proof (cases "birthday r")
    case None
    then have "upcoming_entry zpad today limit r = []"
      by (simp add: upcoming_entry_def)
    with None show ?thesis by (simp add: IH)
  next
    case (Some b)
    with Cons.prems have "check_date_fields (year today) (month b) (day b) = None"
      by (simp add: has_occurrence_def)
    then have "replace_year b (year today) = Inr (occurrence today b)"
      by (simp add: replace_year_ok occurrence_def)
    moreover from Some have "upcoming_entry zpad today limit r =
        (if dt_le today (occurrence today b) \<and> dt_le (occurrence today b) limit
         then [(name r, strftime zpad (occurrence today b))] else [])"
      by (simp add: upcoming_entry_def in_range_def)
    ultimately show ?thesis
      using Some assms(2) by (simp add: IH)
  qed
qed

lemma get_upcoming_birthdays_spec:
  assumes "\<forall>r \<in> set (map snd (records book)). has_occurrence today r"
    and "add_days today 7 = Inr limit"
  shows "get_upcoming_birthdays zpad today book = Inr (upcoming_spec zpad today limit book)"
  unfolding get_upcoming_birthdays_def upcoming_spec_def
  using upcoming_loop_spec [OF assms, of zpad "[]"] by simp

lemma days_in_month_years:
  assumes "1 \<le> m" "m \<le> 12" "1 \<le> d" "d \<le> days_in_month y m" "\<not> (m = 2 \<and> d = 29 \<and> \<not> is_leap y')"
  shows "d \<le> days_in_month y' m"
proof (cases "m = 2")
  case True
  with assms show ?thesis
    by (auto simp: days_in_month_def DAYS_IN_MONTH_def split: if_splits)
next
  case False
  then show ?thesis using assms(4) by (simp add: days_in_month_def)
qed

lemma check_date_fields_ranges:
  "check_date_fields y m d = None \<longleftrightarrow>
     1 \<le> y \<and> y \<le> 9999 \<and> 1 \<le> m \<and> m \<le> 12 \<and> 1 \<le> d \<and> d \<le> days_in_month y m"
  by (auto simp: check_date_fields_def)

lemma has_occurrence_valid:
  assumes "birthday r = Some b" and "check_date_fields (year b) (month b) (day b) = None"
    and "1 \<le> year today" "year today \<le> 9999"
    and "\<not> (month b = 2 \<and> day b = 29 \<and> \<not> is_leap (year today))"
  shows "has_occurrence today r"
  using assms days_in_month_years [of "month b" "day b" "year b" "year today"]
  by (simp add: has_occurrence_def check_date_fields_ranges)

lemma add_days_10_06_2024:
  "add_days \<lparr>year = 2024, month = 6, day = 10, hour = h, minute = mi, second = s, microsecond = us\<rparr> 7
     = Inr \<lparr>year = 2024, month = 6, day = 17, hour = h, minute = mi, second = s, microsecond = us\<rparr>"
  by (simp add: add_days_def toordinal_def ymd2ord_def days_before_year_def days_before_month_def
      DAYS_BEFORE_MONTH_def DAYS_IN_MONTH_def is_leap_def MAXORDINAL_def ord2ymd_def Let_def)

lemmas date_simps = add_days_def toordinal_def ymd2ord_def days_before_year_def
  days_before_month_def DAYS_BEFORE_MONTH_def DAYS_IN_MONTH_def is_leap_def MAXORDINAL_def
  ord2ymd_def Let_def replace_year_def check_date_fields_def days_in_month_def dt_le_def
  dt_fields_def midnight_def

lemma strftime_midnight:
  "strftime False (midnight 2023 6 12) = ''12.06.2023''"
  "strftime zpad (midnight 2024 6 12) = ''12.06.2024''"
  "strftime False (midnight 2024 6 10) = ''10.06.2024''"
  by (simp_all add: strftime_def fmt_Y_def pad2_def pad4_def digit_char_def midnight_def)

lemma upcoming_Carl_Dana:
  "get_upcoming_birthdays False (midnight 2023 6 10) book_Carl_Dana
     = Inl (ValueError ''day is out of range for month'')"
  by (simp add: get_upcoming_birthdays_def book_Carl_Dana_def date_simps)

lemma upcoming_Carl_Dana_leap_year:
  "get_upcoming_birthdays False (midnight 2024 2 25) book_Carl_Dana = Inr [(''Dana'', ''29.02.2024'')]"
  by (simp add: get_upcoming_birthdays_def book_Carl_Dana_def date_simps
      strftime_def fmt_Y_def pad2_def pad4_def digit_char_def)

lemma upcoming_Carl_12_06:
  "get_upcoming_birthdays zpad
     \<lparr>year = 2024, month = 6, day = 10, hour = h, minute = mi, second = s, microsecond = us\<rparr>
     book_Carl_12_06 = Inr [(''Carl'', ''12.06.2024'')]"
  using strftime_midnight(2) [of zpad]
  by (simp add: get_upcoming_birthdays_def book_Carl_12_06_def date_simps)

lemma upcoming_Carl_10_06_midnight:
  "get_upcoming_birthdays False (midnight 2024 6 10) book_Carl_10_06 = Inr [(''Carl'', ''10.06.2024'')]"
  using strftime_midnight(3)
  by (simp add: get_upcoming_birthdays_def book_Carl_10_06_def date_simps)

lemma upcoming_Carl_10_06_afternoon:
  "get_upcoming_birthdays False
     \<lparr>year = 2024, month = 6, day = 10, hour = 14, minute = 30, second = 0, microsecond = 0\<rparr>
     book_Carl_10_06 = Inr []"
  by (simp add: get_upcoming_birthdays_def book_Carl_10_06_def date_simps)

lemma add_days_overflow:
  "add_days (midnight 9999 12 25) 7 = Inl OverflowError"
  by (simp add: date_simps)

text \<open>
  C2. \<open>get_upcoming_birthdays\<close> is to return, for every book and every reference
  date, the list of the entries whose occurrence is in the range. \<open>Birthday\<close>
  accepts \<open>29.02.2024\<close>. In the book of Carl, born 12.06.1990, and Dana, born
  29.02.2024, on 10.06.2023, \<open>replace(year=2023)\<close> raises for Dana: no list is
  returned, and \<open>birthdays\<close> answers \<open>day is out of range for month\<close> in place of
  Carl's entry. The reference is moreover the clock's reading, a datetime: a
  birthday on the reference day, 10.06, is listed at midnight and is not listed
  at half past two in the afternoon. Where every birthday has an occurrence in the
  reference year and the seventh day after the reference exists, the function
  returns the list of the specification, with the range taken between datetimes
  (\<open>get_upcoming_birthdays_spec\<close>).
\<close>

theorem get_upcoming_birthdays_raises_for_leap_day:
  "Birthday (codes ''29.02.2024'') = Inr (midnight 2024 2 29)
   \<and> get_upcoming_birthdays False (midnight 2023 6 10) book_Carl_Dana
       = Inl (ValueError ''day is out of range for month'')
   \<and> fst (birthdays False (midnight 2023 6 10) [] book_Carl_Dana)
       = Inr ''day is out of range for month''
   \<and> get_upcoming_birthdays False (midnight 2024 6 10) book_Carl_10_06
       = Inr [(''Carl'', ''10.06.2024'')]
   \<and> get_upcoming_birthdays False
        \<lparr>year = 2024, month = 6, day = 10, hour = 14, minute = 30, second = 0, microsecond = 0\<rparr>
        book_Carl_10_06 = Inr []"
  by (simp add: Birthday_29_02_2024 upcoming_Carl_Dana upcoming_Carl_10_06_midnight
      upcoming_Carl_10_06_afternoon birthdays_def birthdays_func_def input_error_def)

theorem get_upcoming_birthdays_raises_for_leap_day_witness:
  "get_upcoming_birthdays False (midnight 2023 6 10) book_Carl_Dana
     \<noteq> Inr [(''Carl'', ''12.06.2023'')]"
  using get_upcoming_birthdays_raises_for_leap_day by simp

end
